theory Spec2Isabelle
  imports Complex_Main
begin

section \<open>Python values, exceptions and builtins\<close>

text \<open>
  The importer's command builder (\<^verbatim>\<open>importer/xplane_imp_cmd_builder.py\<close>) is embedded
  with explicit state passing. A raised Python exception is a value \<open>Inl e\<close>; nothing in
  the builder catches it unless the source has a \<^verbatim>\<open>try\<close> around it, so it ends the call.
  Floats are carried as reals: the builder stores and copies them and never computes
  with them.
\<close>

datatype pyerr =
  ValueError | TypeError | OverflowError | AttributeError | IndexError | KeyError
  | UnboundLocalError

text \<open>A directive argument: \<^verbatim>\<open>Union[float, int, str]\<close>.\<close>

datatype pyval = PFloat real | PInt int | PStr string

type_synonym Vector = "real \<times> real \<times> real"

text \<open>\<^verbatim>\<open>int.bit_length\<close> of a magnitude; the recursion ends since halving a positive int
  makes it smaller.\<close>

function bit_length :: "int \<Rightarrow> nat" where
  "bit_length n = (if n \<le> 0 then 0 else Suc (bit_length (n div 2)))"
  by pat_completeness auto
termination
  by (relation "measure nat") auto

declare bit_length.simps [simp del]

text \<open>
  The double nearest to an int, as an int: the magnitude keeps its 53 leading bits, the
  bits below them are rounded off, a tie going to the even neighbour. A magnitude below
  \<open>2 ^ 53\<close> is kept as it is.
\<close>

definition round_to_double :: "int \<Rightarrow> int" where
  "round_to_double i =
     (let m = \<bar>i\<bar>;
          e = bit_length m - 53;
          q = m div 2 ^ e;
          r = m mod 2 ^ e;
          q' = (if 2 ^ e < 2 * r \<or> (2 * r = 2 ^ e \<and> odd q) then q + 1 else q)
      in sgn i * (q' * 2 ^ e))"

text \<open>
  The builtin \<^verbatim>\<open>float(v)\<close>. A float is returned as it is. An int is rounded to the
  nearest double, unless it rounds beyond the largest double, which is OverflowError:
  that is an int of magnitude \<open>2 ^ 1024 - 2 ^ 970\<close> or more, halfway from the largest
  double to \<open>2 ^ 1024\<close>. A str is parsed by the interpreter's float parser, the
  parameter \<open>str_to_float\<close>, where \<open>None\<close> stands for ValueError.
\<close>

definition py_float :: "(string \<Rightarrow> real option) \<Rightarrow> pyval \<Rightarrow> pyerr + real" where
  "py_float str_to_float v =
     (case v of
        PFloat r \<Rightarrow> Inr r
      | PInt i \<Rightarrow>
          if 2 ^ 1024 - 2 ^ 970 \<le> \<bar>i\<bar> then Inl OverflowError
          else Inr (of_int (round_to_double i))
      | PStr s \<Rightarrow> (case str_to_float s of None \<Rightarrow> Inl ValueError | Some r \<Rightarrow> Inr r))"

text \<open>\<^verbatim>\<open>xs[i]\<close> on a list: a negative index counts from the end.\<close>

definition py_index :: "'a list \<Rightarrow> int \<Rightarrow> pyerr + 'a" where
  "py_index xs i =
     (if 0 \<le> i \<and> i < int (length xs) then Inr (xs ! nat i)
      else if i < 0 \<and> - int (length xs) \<le> i then Inr (xs ! nat (int (length xs) + i))
      else Inl IndexError)"

text \<open>\<^verbatim>\<open>xs[lo:hi]\<close> on a list: both bounds are clamped to the list, never an error.\<close>

definition slice_bound :: "nat \<Rightarrow> int \<Rightarrow> nat" where
  "slice_bound n i = (if i < 0 then nat (max 0 (int n + i)) else min n (nat i))"

definition py_slice :: "'a list \<Rightarrow> int \<Rightarrow> int \<Rightarrow> 'a list" where
  "py_slice xs lo hi =
     (let l = slice_bound (length xs) lo; h = slice_bound (length xs) hi
      in take (h - l) (drop l xs))"

text \<open>What the builder prints on standard output.\<close>

datatype printed =
  Couldnt_convert string pyval
  | Recombined_Rotation Vector

section \<open>Data model\<close>

text \<open>
  Modelled from the spec: the constants \<^verbatim>\<open>ANIM_TYPE_TRANSFORM\<close>, \<^verbatim>\<open>ANIM_TYPE_SHOW\<close> and
  \<^verbatim>\<open>ANIM_TYPE_HIDE\<close> of \<^verbatim>\<open>xplane_constants\<close>, which is not among the sources; the spec
  names the animation kinds transform, show and hide.
\<close>

definition ANIM_TYPE_TRANSFORM :: string where "ANIM_TYPE_TRANSFORM = ''transform''"
definition ANIM_TYPE_SHOW :: string where "ANIM_TYPE_SHOW = ''show''"
definition ANIM_TYPE_HIDE :: string where "ANIM_TYPE_HIDE = ''hide''"

record IntermediateDataref =
  anim_type :: string
  loop :: real
  path :: string
  show_hide_v1 :: real
  show_hide_v2 :: real
  values' :: "real list"

text \<open>The dataclass defaults of \<^verbatim>\<open>IntermediateDataref()\<close>.\<close>

definition default_dataref :: IntermediateDataref where
  "default_dataref =
     \<lparr>anim_type = ANIM_TYPE_TRANSFORM, loop = 0, path = '''', show_hide_v1 = 0,
      show_hide_v2 = 0, values' = []\<rparr>"

text \<open>
  The field \<^verbatim>\<open>rotations\<close> is annotated as a dict from axis to angles, and its default
  factory is \<^verbatim>\<open>list\<close>: a new animation holds the empty list. A dict is an association
  list read with \<open>map_of\<close>.
\<close>

datatype rotations_val = PyList | PyDict "(Vector \<times> real list) list"

fun truthy_rotations :: "rotations_val \<Rightarrow> bool" where
  "truthy_rotations PyList = False"
| "truthy_rotations (PyDict kvs) = (kvs \<noteq> [])"

text \<open>
  The default of \<^verbatim>\<open>xp_dataref\<close> is one \<^verbatim>\<open>IntermediateDataref()\<close> shared by the class
  (the dataclass decorator accepts it before Python 3.11). An animation holds the only
  reference to its dataref once \<^verbatim>\<open>ANIM_trans_begin\<close> has replaced that default, which
  happens in the call that creates the animation; so the dataref is a field by value.
\<close>

record IntermediateAnimation =
  locations :: "Vector list"
  rotations :: rotations_val
  xp_dataref :: IntermediateDataref

definition new_animation :: IntermediateAnimation where
  "new_animation = \<lparr>locations = [], rotations = PyList, xp_dataref = default_dataref\<rparr>"

text \<open>
  \<^verbatim>\<open>DatablockInfo\<close> and \<^verbatim>\<open>ParentInfo\<close> are declared in the test helpers, which are not
  among the sources; the fields are the ones the builder passes and reads. The call by
  position in \<^verbatim>\<open>make_empty_as_needed\<close> is read in the order of the call by keyword in
  \<^verbatim>\<open>TRIS\<close>: type, name, parent, collection.
\<close>

record ParentInfo =
  parent :: string

record DatablockInfo =
  datablock_type :: string
  name :: string
  parent_info :: "ParentInfo option"
  collection :: string

text \<open>
  Animation objects are shared between the stack and the nodes and mutated through the
  stack, so a node holds their addresses in the builder's store.
\<close>

record IntermediateDatablock =
  datablock_info :: DatablockInfo
  start_idx :: "int option"
  count :: "int option"
  animations_to_apply :: "nat list"

text \<open>A vertex; a field that could not be converted keeps its argument.\<close>

record VT =
  vt_x :: pyval
  vt_y :: pyval
  vt_z :: pyval
  vt_nx :: pyval
  vt_ny :: pyval
  vt_nz :: pyval
  vt_s :: pyval
  vt_t :: pyval

record VTTable =
  vertices :: "VT list"
  idxes :: "int list"

text \<open>
  A stack entry refers to its animation by address and to its node by the node's
  position in \<^verbatim>\<open>_blocks\<close>: every node bound to an entry is appended to \<^verbatim>\<open>_blocks\<close> in
  the same call, and \<^verbatim>\<open>_blocks\<close> only grows.
\<close>

record AnimBoneStackEntry =
  animation :: nat
  inter_datablock :: "nat option"

text \<open>
  The builder. Both deques are lists whose head is the right end of the deque (the top).
  \<open>anims\<close> is the store of animation objects and \<open>next_anim\<close> the next free address.
\<close>

record ImpCommandBuilder =
  root_collection :: string
  vt_table :: VTTable
  root_intermediate_datablock :: IntermediateDatablock
  blocks :: "IntermediateDatablock list"
  last_axis :: "Vector option"
  anim_intermediate_stack :: "AnimBoneStackEntry list"
  anim_count :: "nat list"
  anims :: "nat \<Rightarrow> IntermediateAnimation"
  next_anim :: nat
  stdout :: "printed list"

text \<open>\<^verbatim>\<open>__init__\<close>; the argument is the name of the root collection (the file's stem).\<close>

definition root_datablock :: "string \<Rightarrow> IntermediateDatablock" where
  "root_datablock coll =
     \<lparr>datablock_info =
        \<lparr>datablock_type = ''EMPTY'', name = ''ROOT'', parent_info = None, collection = coll\<rparr>,
      start_idx = None, count = None, animations_to_apply = []\<rparr>"

definition init :: "string \<Rightarrow> ImpCommandBuilder" where
  "init coll =
     \<lparr>root_collection = coll,
      vt_table = \<lparr>vertices = [], idxes = []\<rparr>,
      root_intermediate_datablock = root_datablock coll,
      blocks = [root_datablock coll],
      last_axis = None,
      anim_intermediate_stack = [],
      anim_count = [],
      anims = (\<lambda>_. new_animation),
      next_anim = 0,
      stdout = []\<rparr>"

section \<open>Vertices\<close>

text \<open>
  \<^verbatim>\<open>VT.__post_init__\<close>: every field goes through \<^verbatim>\<open>float\<close>; only ValueError is caught,
  and then the field keeps its value and a message is printed.
\<close>

fun post_init ::
  "(string \<Rightarrow> real option) \<Rightarrow> (string \<times> pyval) list \<Rightarrow> pyerr + (pyval list \<times> printed list)"
where
  "post_init f [] = Inr ([], [])"
| "post_init f ((attr, v) # rest) =
     (case py_float f v of
        Inr r \<Rightarrow>
          (case post_init f rest of
             Inl e \<Rightarrow> Inl e
           | Inr (vs, out) \<Rightarrow> Inr (PFloat r # vs, out))
      | Inl ValueError \<Rightarrow>
          (case post_init f rest of
             Inl e \<Rightarrow> Inl e
           | Inr (vs, out) \<Rightarrow> Inr (v # vs, Couldnt_convert attr v # out))
      | Inl e \<Rightarrow> Inl e)"

definition VT_annotations :: "string list" where
  "VT_annotations = [''x'', ''y'', ''z'', ''nx'', ''ny'', ''nz'', ''s'', ''t'']"

text \<open>\<^verbatim>\<open>VT(*args)\<close>: the generated constructor takes exactly eight arguments.\<close>

definition VT_new :: "(string \<Rightarrow> real option) \<Rightarrow> pyval list \<Rightarrow> pyerr + (VT \<times> printed list)" where
  "VT_new f args =
     (if length args \<noteq> 8 then Inl TypeError
      else
        (case post_init f (zip VT_annotations args) of
           Inl e \<Rightarrow> Inl e
         | Inr (vs, out) \<Rightarrow>
             Inr (\<lparr>vt_x = vs ! 0, vt_y = vs ! 1, vt_z = vs ! 2, vt_nx = vs ! 3, vt_ny = vs ! 4,
                   vt_nz = vs ! 5, vt_s = vs ! 6, vt_t = vs ! 7\<rparr>, out)))"

section \<open>The directive dispatcher\<close>

text \<open>
  A directive with its arguments, typed as \<^verbatim>\<open>build_cmd\<close> expects them (``args must be
  every arg, in order, correctly typed''). The arguments of \<^verbatim>\<open>VT\<close> stay untyped, since
  the vertex constructor converts them itself. \<^verbatim>\<open>TRIS\<close> carries the name hint.
\<close>

datatype directive =
  VT "pyval list"
  | IDX int
  | IDX10 "int list"
  | TRIS int int string
  | ANIM_begin
  | ANIM_end
  | ANIM_trans_begin string
  | ANIM_trans_key real Vector
  | ANIM_trans_end
  | ANIM_hide real real string
  | ANIM_show real real string
  | ANIM_rotate_begin Vector string
  | ANIM_rotate_key real real
  | ANIM_rotate_end
  | ANIM_keyframe_loop real
  | Other string

text \<open>The property \<^verbatim>\<open>_current_animation\<close>: \<open>None\<close> when the stack is empty.\<close>

definition current_animation :: "ImpCommandBuilder \<Rightarrow> nat option" where
  "current_animation b =
     (case anim_intermediate_stack b of [] \<Rightarrow> None | e # _ \<Rightarrow> Some (animation e))"

text \<open>The property \<^verbatim>\<open>_current_intermediate_datablock\<close> and its setter.\<close>

definition current_intermediate_datablock :: "ImpCommandBuilder \<Rightarrow> pyerr + nat option" where
  "current_intermediate_datablock b =
     (case anim_intermediate_stack b of [] \<Rightarrow> Inl IndexError | e # _ \<Rightarrow> Inr (inter_datablock e))"

definition set_current_intermediate_datablock ::
  "nat \<Rightarrow> ImpCommandBuilder \<Rightarrow> pyerr + ImpCommandBuilder" where
  "set_current_intermediate_datablock k b =
     (case anim_intermediate_stack b of
        [] \<Rightarrow> Inl IndexError
      | e # es \<Rightarrow> Inr (b\<lparr>anim_intermediate_stack := e\<lparr>inter_datablock := Some k\<rparr> # es\<rparr>))"

text \<open>
  \<^verbatim>\<open>make_empty_as_needed\<close>. The parent expression reads the binding of the top entry
  again, as the source does.
\<close>

definition make_empty_as_needed :: "ImpCommandBuilder \<Rightarrow> pyerr + ImpCommandBuilder" where
  "make_empty_as_needed b =
     (case anim_intermediate_stack b of
        [] \<Rightarrow> Inr b
      | e # es \<Rightarrow>
          (case inter_datablock e of
             Some _ \<Rightarrow> Inr b
           | None \<Rightarrow>
               (let empt =
                  \<lparr>datablock_info =
                     \<lparr>datablock_type = ''EMPTY'',
                      name = ''next_empty_name'',
                      parent_info =
                        Some \<lparr>parent =
                          (case inter_datablock e of
                             Some k \<Rightarrow> name (datablock_info (blocks b ! k))
                           | None \<Rightarrow> name (datablock_info (root_intermediate_datablock b)))\<rparr>,
                      collection = root_collection b\<rparr>,
                   start_idx = None, count = None,
                   animations_to_apply = [animation e]\<rparr>
                in
                  (case set_current_intermediate_datablock (length (blocks b)) b of
                     Inl err \<Rightarrow> Inl err
                   | Inr b' \<Rightarrow> Inr (b'\<lparr>blocks := blocks b' @ [empt]\<rparr>)))))"

text \<open>
  The parent of a new mesh node: the node of the entry below the top, the root when
  there is no such entry (IndexError, caught). Reading the name of an unbound entry's
  node is AttributeError.
\<close>

definition tris_parent_name :: "ImpCommandBuilder \<Rightarrow> pyerr + string" where
  "tris_parent_name b =
     (case anim_intermediate_stack b of
        _ # e2 # _ \<Rightarrow>
          (case inter_datablock e2 of
             None \<Rightarrow> Inl AttributeError
           | Some k \<Rightarrow> Inr (name (datablock_info (blocks b ! k))))
      | _ \<Rightarrow> Inr (name (datablock_info (root_intermediate_datablock b))))"

text \<open>\<^verbatim>\<open>for i in range(n): self._anim_intermediate_stack.pop()\<close>\<close>

fun pop_frames :: "nat \<Rightarrow> AnimBoneStackEntry list \<Rightarrow> pyerr + AnimBoneStackEntry list" where
  "pop_frames 0 st = Inr st"
| "pop_frames (Suc n) [] = Inl IndexError"
| "pop_frames (Suc n) (e # st) = pop_frames n st"

text \<open>Mutating the current animation object in the store.\<close>

definition update_anim ::
  "nat \<Rightarrow> (IntermediateAnimation \<Rightarrow> IntermediateAnimation) \<Rightarrow> ImpCommandBuilder \<Rightarrow> ImpCommandBuilder"
where
  "update_anim a f b = b\<lparr>anims := (anims b)(a := f (anims b a))\<rparr>"

definition update_dataref ::
  "nat \<Rightarrow> (IntermediateDataref \<Rightarrow> IntermediateDataref) \<Rightarrow> ImpCommandBuilder \<Rightarrow> ImpCommandBuilder"
where
  "update_dataref a f b = update_anim a (\<lambda>an. an\<lparr>xp_dataref := f (xp_dataref an)\<rparr>) b"

text \<open>\<^verbatim>\<open>rotations[axis].append(degrees)\<close>\<close>

fun append_rotation :: "Vector \<Rightarrow> real \<Rightarrow> rotations_val \<Rightarrow> pyerr + rotations_val" where
  "append_rotation axis degrees PyList = Inl TypeError"
| "append_rotation axis degrees (PyDict kvs) =
     (case map_of kvs axis of
        None \<Rightarrow> Inl KeyError
      | Some ds \<Rightarrow>
          Inr (PyDict (map (\<lambda>(k, v). if k = axis then (k, v @ [degrees]) else (k, v)) kvs)))"

text \<open>
  \<^verbatim>\<open>build_cmd\<close>, one directive. \<^verbatim>\<open>ANIM_rotate_begin\<close> stores the axis and then calls
  \<^verbatim>\<open>append\<close> on \<^verbatim>\<open>self._current_animation.xp_dataref\<close>: with an empty stack the
  animation is \<^verbatim>\<open>None\<close>, otherwise the dataref is an \<^verbatim>\<open>IntermediateDataref\<close>, which has no
  such attribute; both are AttributeError, raised before the open count is incremented.
  In \<^verbatim>\<open>TRIS\<close>, an animation object and a node object are always true, so
  \<^verbatim>\<open>should_apply_animation\<close> holds when the stack has a top entry with no node.
\<close>

fun build_cmd ::
  "(string \<Rightarrow> real option) \<Rightarrow> directive \<Rightarrow> ImpCommandBuilder \<Rightarrow> pyerr + ImpCommandBuilder"
where
  "build_cmd f (VT args) b =
     (case VT_new f args of
        Inl e \<Rightarrow> Inl e
      | Inr (v, out) \<Rightarrow>
          Inr (b\<lparr>vt_table := (vt_table b)\<lparr>vertices := vertices (vt_table b) @ [v]\<rparr>,
                 stdout := stdout b @ out\<rparr>))"
| "build_cmd f (IDX i) b =
     Inr (b\<lparr>vt_table := (vt_table b)\<lparr>idxes := idxes (vt_table b) @ [i]\<rparr>\<rparr>)"
| "build_cmd f (IDX10 is) b =
     Inr (b\<lparr>vt_table := (vt_table b)\<lparr>idxes := idxes (vt_table b) @ is\<rparr>\<rparr>)"
| "build_cmd f (TRIS start cnt name_hint) b =
     (let should_apply_animation =
            (case anim_intermediate_stack b of
               [] \<Rightarrow> False
             | e # _ \<Rightarrow> inter_datablock e = None)
      in
        (case tris_parent_name b of
           Inl err \<Rightarrow> Inl err
         | Inr pname \<Rightarrow>
             (let inter =
                \<lparr>datablock_info =
                   \<lparr>datablock_type = ''MESH'',
                    name = (if name_hint \<noteq> '''' then name_hint else ''next_obj_name''),
                    parent_info = Some \<lparr>parent = pname\<rparr>,
                    collection = root_collection b\<rparr>,
                 start_idx = Some start, count = Some cnt,
                 animations_to_apply =
                   (if should_apply_animation
                    then (case current_animation b of Some a \<Rightarrow> [a] | None \<Rightarrow> [])
                    else [])\<rparr>;
                  b1 = b\<lparr>blocks := blocks b @ [inter]\<rparr>
              in
                if should_apply_animation
                then set_current_intermediate_datablock (length (blocks b)) b1
                else Inr b1)))"
| "build_cmd f ANIM_begin b = Inr (b\<lparr>anim_count := 0 # anim_count b\<rparr>)"
| "build_cmd f ANIM_end b =
     (case anim_count b of
        [] \<Rightarrow> Inl IndexError
      | n # ns \<Rightarrow>
          (case pop_frames n (anim_intermediate_stack b) of
             Inl err \<Rightarrow> Inl err
           | Inr st \<Rightarrow> Inr (b\<lparr>anim_count := ns, anim_intermediate_stack := st\<rparr>)))"
| "build_cmd f (ANIM_trans_begin dataref_path) b =
     (case make_empty_as_needed b of
        Inl err \<Rightarrow> Inl err
      | Inr b1 \<Rightarrow>
          (let a = next_anim b1;
               b2 = b1\<lparr>anims := (anims b1)(a := new_animation),
                       next_anim := Suc a,
                       anim_intermediate_stack :=
                         \<lparr>animation = a, inter_datablock = None\<rparr> # anim_intermediate_stack b1\<rparr>;
               b3 = update_anim a
                      (\<lambda>an. an\<lparr>xp_dataref :=
                         \<lparr>anim_type = ANIM_TYPE_TRANSFORM, loop = 0, path = dataref_path,
                          show_hide_v1 = 0, show_hide_v2 = 0, values' = []\<rparr>\<rparr>) b2
           in
             (case anim_count b3 of
                [] \<Rightarrow> Inl IndexError
              | n # ns \<Rightarrow> Inr (b3\<lparr>anim_count := Suc n # ns\<rparr>))))"
| "build_cmd f (ANIM_trans_key val location) b =
     (case current_animation b of
        None \<Rightarrow> Inl AttributeError
      | Some a \<Rightarrow>
          Inr (update_dataref a (\<lambda>d. d\<lparr>values' := values' d @ [val]\<rparr>)
                 (update_anim a (\<lambda>an. an\<lparr>locations := locations an @ [location]\<rparr>) b)))"
| "build_cmd f ANIM_trans_end b = Inr b"
| "build_cmd f (ANIM_hide v1 v2 dataref_path) b =
     (case current_animation b of
        None \<Rightarrow> Inl AttributeError
      | Some a \<Rightarrow>
          Inr (update_dataref a
                 (\<lambda>d. d\<lparr>anim_type := ''hide'', path := dataref_path,
                        show_hide_v1 := v1, show_hide_v2 := v2\<rparr>) b))"
| "build_cmd f (ANIM_show v1 v2 dataref_path) b =
     (case current_animation b of
        None \<Rightarrow> Inl AttributeError
      | Some a \<Rightarrow>
          Inr (update_dataref a
                 (\<lambda>d. d\<lparr>anim_type := ''show'', path := dataref_path,
                        show_hide_v1 := v1, show_hide_v2 := v2\<rparr>) b))"
| "build_cmd f (ANIM_rotate_begin axis dataref_path) b = Inl AttributeError"
| "build_cmd f (ANIM_rotate_key val degrees) b =
     (case current_animation b of
        None \<Rightarrow> Inl AttributeError
      | Some a \<Rightarrow>
          (case last_axis b of
             None \<Rightarrow> Inl AttributeError
           | Some axis \<Rightarrow>
               (case append_rotation axis degrees (rotations (anims b a)) of
                  Inl err \<Rightarrow> Inl err
                | Inr rs \<Rightarrow>
                    Inr (update_dataref a (\<lambda>d. d\<lparr>values' := values' d @ [val]\<rparr>)
                           (update_anim a (\<lambda>an. an\<lparr>rotations := rs\<rparr>) b)))))"
| "build_cmd f ANIM_rotate_end b = Inr (b\<lparr>last_axis := None\<rparr>)"
| "build_cmd f (ANIM_keyframe_loop l) b =
     (case current_animation b of
        None \<Rightarrow> Inl AttributeError
      | Some a \<Rightarrow> Inr (update_dataref a (\<lambda>d. d\<lparr>loop := l\<rparr>) b))"
| "build_cmd f (Other directive_name) b = Inr b"

text \<open>
  A directive stream is fed to \<^verbatim>\<open>build_cmd\<close> in order; the first exception ends the
  parse.
\<close>

fun run_stream ::
  "(string \<Rightarrow> real option) \<Rightarrow> directive list \<Rightarrow> ImpCommandBuilder \<Rightarrow> pyerr + ImpCommandBuilder"
where
  "run_stream f [] b = Inr b"
| "run_stream f (d # ds) b =
     (case build_cmd f d b of Inl e \<Rightarrow> Inl e | Inr b' \<Rightarrow> run_stream f ds b')"

section \<open>Finalization\<close>

text \<open>
  The calls into the host (the scene helpers and the mesh API) are recorded as requests,
  in the order they are made. \<^verbatim>\<open>KeyframeInfo\<close> is declared in the test helpers; its
  fields are the keyword arguments \<^verbatim>\<open>apply_animation\<close> passes. An object the host
  returned is identified by the \<^verbatim>\<open>DatablockInfo\<close> it was created from.
\<close>

record KeyframeInfo =
  idx :: nat
  dataref_path :: string
  dataref_value :: "real option"
  dataref_show_hide_v1 :: "real option"
  dataref_show_hide_v2 :: "real option"
  dataref_anim_type :: string
  location :: "Vector option"
  rotation :: "Vector option"

datatype request =
  Create_datablock_empty DatablockInfo
  | Create_datablock_mesh DatablockInfo
  | From_pydata "(pyval \<times> pyval \<times> pyval) list" "int list list"
  | Set_normals_uvs "(int \<times> (pyval \<times> pyval \<times> pyval) \<times> (pyval \<times> pyval)) set"
  | Logger_error
  | Set_material
  | Set_animation_data DatablockInfo "KeyframeInfo list"
  | Set_frame_current nat

text \<open>\<^verbatim>\<open>self.rotations[axis][i]\<close>, for \<open>i\<close> from \<^verbatim>\<open>enumerate\<close>.\<close>

definition rotation_at :: "rotations_val \<Rightarrow> Vector \<Rightarrow> nat \<Rightarrow> pyerr + real" where
  "rotation_at rs axis i =
     (case rs of
        PyList \<Rightarrow> Inl TypeError
      | PyDict kvs \<Rightarrow>
          (case map_of kvs axis of
             None \<Rightarrow> Inl KeyError
           | Some ds \<Rightarrow> if i < length ds then Inr (ds ! i) else Inl IndexError))"

text \<open>\<^verbatim>\<open>recompose_rotation\<close>: the three axes are read in the order x, y, z.\<close>

definition recompose_rotation :: "IntermediateAnimation \<Rightarrow> nat \<Rightarrow> pyerr + Vector" where
  "recompose_rotation an i =
     (case rotation_at (rotations an) (1, 0, 0) i of
        Inl e \<Rightarrow> Inl e
      | Inr rx \<Rightarrow>
          (case rotation_at (rotations an) (0, 1, 0) i of
             Inl e \<Rightarrow> Inl e
           | Inr ry \<Rightarrow>
               (case rotation_at (rotations an) (0, 0, 1) i of
                  Inl e \<Rightarrow> Inl e
                | Inr rz \<Rightarrow> Inr (rx, ry, rz))))"

text \<open>
  The loop of \<^verbatim>\<open>apply_animation\<close> over \<^verbatim>\<open>enumerate(self.xp_dataref.values)\<close>;
  \<^verbatim>\<open>current_frame\<close> is \<open>i + 1\<close> throughout.
\<close>

fun transform_keyframes ::
  "IntermediateAnimation \<Rightarrow> nat \<Rightarrow> real list \<Rightarrow> pyerr + (KeyframeInfo list \<times> printed list)"
where
  "transform_keyframes an i [] = Inr ([], [])"
| "transform_keyframes an i (v # vs) =
     (case (if locations an \<noteq> []
            then (if i < length (locations an) then Inr (Some (locations an ! i))
                  else Inl IndexError)
            else Inr None) of
        Inl e \<Rightarrow> Inl e
      | Inr loc \<Rightarrow>
          (case (if truthy_rotations (rotations an)
                 then (case recompose_rotation an i of Inl e \<Rightarrow> Inl e | Inr r \<Rightarrow> Inr (Some r))
                 else Inr None) of
             Inl e \<Rightarrow> Inl e
           | Inr rot \<Rightarrow>
               (case transform_keyframes an (Suc i) vs of
                  Inl e \<Rightarrow> Inl e
                | Inr (ks, out) \<Rightarrow>
                    Inr (\<lparr>idx = Suc i,
                          dataref_path = path (xp_dataref an),
                          dataref_value = Some v,
                          dataref_show_hide_v1 = None,
                          dataref_show_hide_v2 = None,
                          dataref_anim_type = anim_type (xp_dataref an),
                          location = loc,
                          rotation = rot\<rparr> # ks,
                         (case rot of None \<Rightarrow> [] | Some r \<Rightarrow> [Recombined_Rotation r]) @ out))))"

text \<open>\<^verbatim>\<open>apply_animation\<close>: the keyframes handed to \<^verbatim>\<open>set_animation_data\<close>.\<close>

definition apply_animation ::
  "IntermediateAnimation \<Rightarrow> pyerr + (KeyframeInfo list \<times> printed list)" where
  "apply_animation an =
     (if anim_type (xp_dataref an) = ANIM_TYPE_TRANSFORM
      then transform_keyframes an 0 (values' (xp_dataref an))
      else Inr ([\<lparr>idx = 1,
                  dataref_path = path (xp_dataref an),
                  dataref_value = None,
                  dataref_show_hide_v1 = Some (show_hide_v1 (xp_dataref an)),
                  dataref_show_hide_v2 = Some (show_hide_v2 (xp_dataref an)),
                  dataref_anim_type = anim_type (xp_dataref an),
                  location = None,
                  rotation = None\<rparr>], []))"

text \<open>
  The faces of \<^verbatim>\<open>build_mesh\<close>: the index run is cut into steps of three, each reversed
  and rebased by \<^verbatim>\<open>start_idx\<close>; a last step may be shorter.
\<close>

fun mesh_faces :: "int \<Rightarrow> int list \<Rightarrow> int list list" where
  "mesh_faces start [] = []"
| "mesh_faces start (x # xs) =
     map (\<lambda>i. i - start) (rev (take 3 (x # xs))) # mesh_faces start (drop 3 (x # xs))"

text \<open>
  The loop of \<^verbatim>\<open>build_mesh\<close> over the set of face indices: for each index, the
  normal and the uv read from \<^verbatim>\<open>vertices[idx]\<close>, to be written to the mesh at that
  index. An index outside the slice of vertices is IndexError, whichever index the loop
  visits first.
\<close>

fun normals_uvs ::
  "VT list \<Rightarrow> int list \<Rightarrow> pyerr + (int \<times> (pyval \<times> pyval \<times> pyval) \<times> (pyval \<times> pyval)) list"
where
  "normals_uvs vs [] = Inr []"
| "normals_uvs vs (i # is) =
     (case py_index vs i of
        Inl e \<Rightarrow> Inl e
      | Inr v \<Rightarrow>
          (case normals_uvs vs is of
             Inl e \<Rightarrow> Inl e
           | Inr ws \<Rightarrow> Inr ((i, (vt_nx v, vt_ny v, vt_nz v), (vt_s v, vt_t v)) # ws)))"

text \<open>The two slices \<^verbatim>\<open>build_mesh\<close> takes from the table.\<close>

definition mesh_idxes :: "VTTable \<Rightarrow> int \<Rightarrow> int \<Rightarrow> int list" where
  "mesh_idxes vt start cnt = py_slice (idxes vt) start (start + cnt)"

definition mesh_vertices :: "VTTable \<Rightarrow> int \<Rightarrow> int \<Rightarrow> VT list" where
  "mesh_vertices vt start cnt = py_slice (vertices vt) start (start + cnt)"

text \<open>
  \<^verbatim>\<open>build_mesh\<close>. \<open>validate\<close> is the host's \<^verbatim>\<open>me.validate(verbose=True)\<close>. Adding
  \<^verbatim>\<open>None\<close> to an int is TypeError; reading \<^verbatim>\<open>parent\<close> of a \<^verbatim>\<open>parent_info\<close> that is
  \<^verbatim>\<open>None\<close> is AttributeError. The node is returned as the call leaves it. Python
  does not specify the order in which it visits a set, and the loop writes each index
  of the set once, so its writes go to the host as a set.
\<close>

definition build_mesh ::
  "((pyval \<times> pyval \<times> pyval) list \<Rightarrow> int list list \<Rightarrow> bool) \<Rightarrow> IntermediateDatablock \<Rightarrow> VTTable
     \<Rightarrow> pyerr + (IntermediateDatablock \<times> request list)"
where
  "build_mesh validate blk vt =
     (case (start_idx blk, count blk) of
        (Some start, Some cnt) \<Rightarrow>
          (let idxs = mesh_idxes vt start cnt;
               verts = mesh_vertices vt start cnt;
               faces = mesh_faces start idxs
           in
             (case parent_info (datablock_info blk) of
                None \<Rightarrow> Inl AttributeError
              | Some p \<Rightarrow>
                  (let blk' =
                         (if parent p = ''ROOT''
                          then blk\<lparr>datablock_info := (datablock_info blk)\<lparr>parent_info := None\<rparr>\<rparr>
                          else blk);
                       pos = map (\<lambda>v. (vt_x v, vt_y v, vt_z v)) verts
                   in
                     (case (if \<not> validate pos faces
                            then (case normals_uvs verts (concat faces) of
                                    Inl e \<Rightarrow> Inl e
                                  | Inr ws \<Rightarrow> Inr [Set_normals_uvs (set ws)])
                            else Inr [Logger_error]) of
                        Inl e \<Rightarrow> Inl e
                      | Inr rs \<Rightarrow>
                          Inr (blk',
                               [Create_datablock_mesh (datablock_info blk'), From_pydata pos faces]
                               @ rs @ [Set_material])))))
      | _ \<Rightarrow> Inl TypeError)"

text \<open>The inner loop of the finalizer: \<^verbatim>\<open>animation.apply_animation(ob)\<close>.\<close>

fun apply_animations ::
  "(nat \<Rightarrow> IntermediateAnimation) \<Rightarrow> DatablockInfo option \<Rightarrow> nat list
     \<Rightarrow> pyerr + (request list \<times> printed list)"
where
  "apply_animations store ob [] = Inr ([], [])"
| "apply_animations store ob (a # as) =
     (case ob of
        None \<Rightarrow> Inl UnboundLocalError
      | Some o_info \<Rightarrow>
          (case apply_animation (store a) of
             Inl e \<Rightarrow> Inl e
           | Inr (ks, out) \<Rightarrow>
               (case apply_animations store ob as of
                  Inl e \<Rightarrow> Inl e
                | Inr (rs, out') \<Rightarrow> Inr (Set_animation_data o_info ks # rs, out @ out'))))"

text \<open>
  The outer loop over \<^verbatim>\<open>self._blocks[1:]\<close>. The nodes are returned as the loop leaves
  them; \<open>ob\<close> is the variable \<^verbatim>\<open>ob\<close>, unbound until a node of type EMPTY or MESH has
  been seen.
\<close>

fun finalize_loop ::
  "((pyval \<times> pyval \<times> pyval) list \<Rightarrow> int list list \<Rightarrow> bool) \<Rightarrow> (nat \<Rightarrow> IntermediateAnimation)
     \<Rightarrow> VTTable \<Rightarrow> DatablockInfo option \<Rightarrow> IntermediateDatablock list
     \<Rightarrow> pyerr + (IntermediateDatablock list \<times> request list \<times> printed list)"
where
  "finalize_loop validate store vt ob [] = Inr ([], [], [])"
| "finalize_loop validate store vt ob (blk # rest) =
     (case (if datablock_type (datablock_info blk) = ''EMPTY''
            then Inr (blk, Some (datablock_info blk), [Create_datablock_empty (datablock_info blk)])
            else if datablock_type (datablock_info blk) = ''MESH''
            then (case build_mesh validate blk vt of
                    Inl e \<Rightarrow> Inl e
                  | Inr (blk', rs) \<Rightarrow> Inr (blk', Some (datablock_info blk'), rs))
            else Inr (blk, ob, [])) of
        Inl e \<Rightarrow> Inl e
      | Inr (blk', ob', rs) \<Rightarrow>
          (case apply_animations store ob' (animations_to_apply blk') of
             Inl e \<Rightarrow> Inl e
           | Inr (rs', out) \<Rightarrow>
               (case finalize_loop validate store vt ob' rest of
                  Inl e \<Rightarrow> Inl e
                | Inr (rest', rs'', out') \<Rightarrow> Inr (blk' # rest', rs @ rs' @ rs'', out @ out'))))"

text \<open>
  \<^verbatim>\<open>finalize_intermediate_blocks\<close>. \<open>Inr\<close> stands for the return of \<^verbatim>\<open>{"FINISHED"}\<close>
  and carries the builder as the call leaves it and the requests made to the host.
\<close>

definition finalize_intermediate_blocks ::
  "((pyval \<times> pyval \<times> pyval) list \<Rightarrow> int list list \<Rightarrow> bool) \<Rightarrow> ImpCommandBuilder
     \<Rightarrow> pyerr + (ImpCommandBuilder \<times> request list)"
where
  "finalize_intermediate_blocks validate b =
     (case finalize_loop validate (anims b) (vt_table b) None (drop 1 (blocks b)) of
        Inl e \<Rightarrow> Inl e
      | Inr (bs, rs, out) \<Rightarrow>
          Inr (b\<lparr>blocks := take 1 (blocks b) @ bs, stdout := stdout b @ out\<rparr>,
               rs @ [Set_frame_current 1]))"

section \<open>Streams, invariants and harness definitions used in the statements\<close>

text \<open>Parsing a stream on a new builder and finalizing the result.\<close>

definition parse_and_finalize ::
  "(string \<Rightarrow> real option) \<Rightarrow> ((pyval \<times> pyval \<times> pyval) list \<Rightarrow> int list list \<Rightarrow> bool) \<Rightarrow> string
     \<Rightarrow> directive list \<Rightarrow> pyerr + (ImpCommandBuilder \<times> request list)"
where
  "parse_and_finalize f validate coll ds =
     (case run_stream f ds (init coll) of
        Inl e \<Rightarrow> Inl e
      | Inr b \<Rightarrow> finalize_intermediate_blocks validate b)"


text \<open>The stream of the nested-block scenario: a translation and a rotation about X.\<close>

definition nested_block_stream :: "directive list" where
  "nested_block_stream =
     [ANIM_begin, ANIM_trans_begin ''dataref/t'', ANIM_trans_end,
      ANIM_rotate_begin (1, 0, 0) ''dataref/r'', ANIM_rotate_key 0 10, ANIM_rotate_end,
      ANIM_end]"

text \<open>The stream of the bare-translation scenario, for any dataref path and keyframes.\<close>

definition translation_stream :: "string \<Rightarrow> real \<Rightarrow> Vector \<Rightarrow> real \<Rightarrow> Vector \<Rightarrow> directive list" where
  "translation_stream p v0 loc0 v1 loc1 =
     [ANIM_begin, ANIM_trans_begin p, ANIM_trans_key v0 loc0, ANIM_trans_key v1 loc1,
      ANIM_trans_end, ANIM_end]"

text \<open>
  An animation holding the split rotations of the recomposition scenario: 10 degrees
  about X and 20 about Y at keyframe 0, nothing about Z.
\<close>

definition split_rotation_animation :: IntermediateAnimation where
  "split_rotation_animation =
     \<lparr>locations = [],
      rotations = PyDict [((1, 0, 0), [10]), ((0, 1, 0), [20])],
      xp_dataref = default_dataref\<lparr>values' := [0]\<rparr>\<rparr>"

text \<open>
  Block markers are balanced when no \<^verbatim>\<open>ANIM_end\<close> comes without an open
  \<^verbatim>\<open>ANIM_begin\<close> and every block is closed at the end; \<open>block_depth\<close> counts the open
  blocks.
\<close>

fun block_depth :: "nat \<Rightarrow> directive list \<Rightarrow> nat option" where
  "block_depth n [] = Some n"
| "block_depth n (ANIM_begin # ds) = block_depth (Suc n) ds"
| "block_depth n (ANIM_end # ds) = (case n of 0 \<Rightarrow> None | Suc m \<Rightarrow> block_depth m ds)"
| "block_depth n (d # ds) = block_depth n ds"

definition balanced :: "directive list \<Rightarrow> bool" where
  "balanced ds = (block_depth 0 ds = Some 0)"

text \<open>Directives that neither open nor close a block or an animation.\<close>

fun same_level :: "directive \<Rightarrow> bool" where
  "same_level ANIM_begin = False"
| "same_level ANIM_end = False"
| "same_level (ANIM_trans_begin p) = False"
| "same_level (ANIM_rotate_begin axis p) = False"
| "same_level d = True"

fun is_tris :: "directive \<Rightarrow> bool" where
  "is_tris (TRIS start cnt name_hint) = True"
| "is_tris d = False"

text \<open>What \<^verbatim>\<open>__post_init__\<close> leaves in a field, and the message it prints for it.\<close>

definition post_init_value :: "(string \<Rightarrow> real option) \<Rightarrow> pyval \<Rightarrow> pyval" where
  "post_init_value f v = (case py_float f v of Inr r \<Rightarrow> PFloat r | Inl e \<Rightarrow> v)"

definition post_init_message :: "(string \<Rightarrow> real option) \<Rightarrow> string \<times> pyval \<Rightarrow> printed list" where
  "post_init_message f av =
     (if py_float f (snd av) = Inl ValueError then [Couldnt_convert (fst av) (snd av)] else [])"

text \<open>
  Invariants of the builder: a bound stack entry refers to a node in \<^verbatim>\<open>_blocks\<close>; every
  entry below the top is bound; the stack holds as many entries as the open blocks
  count; the root is the one \<^verbatim>\<open>__init__\<close> made.
\<close>

definition refs_in_range :: "ImpCommandBuilder \<Rightarrow> bool" where
  "refs_in_range b =
     list_all (\<lambda>e. case inter_datablock e of None \<Rightarrow> True | Some k \<Rightarrow> k < length (blocks b))
       (anim_intermediate_stack b)"

definition below_top_bound :: "ImpCommandBuilder \<Rightarrow> bool" where
  "below_top_bound b = list_all (\<lambda>e. inter_datablock e \<noteq> None) (tl (anim_intermediate_stack b))"

definition depth_matches_counts :: "ImpCommandBuilder \<Rightarrow> bool" where
  "depth_matches_counts b = (length (anim_intermediate_stack b) = sum_list (anim_count b))"

definition reachable_inv :: "string \<Rightarrow> ImpCommandBuilder \<Rightarrow> bool" where
  "reachable_inv coll b =
     (refs_in_range b \<and> below_top_bound b \<and> depth_matches_counts b \<and>
      root_intermediate_datablock b = root_datablock coll)"

text \<open>
  A stream that leaves two open frames: the top one unbound, the enclosing one bound to
  the empty node the second \<^verbatim>\<open>ANIM_trans_begin\<close> made.
\<close>

definition enclosing_bound_stream :: "directive list" where
  "enclosing_bound_stream =
     [ANIM_begin, ANIM_trans_begin ''a'', ANIM_begin, ANIM_trans_begin ''b'']"

text \<open>An argument that \<^verbatim>\<open>float\<close> converts or rejects with ValueError: no int out of range.\<close>

definition in_float_range :: "pyval \<Rightarrow> bool" where
  "in_float_range v = (case v of PInt i \<Rightarrow> \<bar>i\<bar> < 2 ^ 1024 - 2 ^ 970 | _ \<Rightarrow> True)"

text \<open>A table with three vertices and one index run, and a mesh node over a range of it.\<close>

definition short_table :: VTTable where
  "short_table =
     \<lparr>vertices =
        [\<lparr>vt_x = PFloat 0, vt_y = PFloat 0, vt_z = PFloat 0, vt_nx = PFloat 0, vt_ny = PFloat 0,
          vt_nz = PFloat 1, vt_s = PFloat 0, vt_t = PFloat 0\<rparr>,
         \<lparr>vt_x = PFloat 1, vt_y = PFloat 0, vt_z = PFloat 0, vt_nx = PFloat 0, vt_ny = PFloat 0,
          vt_nz = PFloat 1, vt_s = PFloat 1, vt_t = PFloat 0\<rparr>,
         \<lparr>vt_x = PFloat 0, vt_y = PFloat 1, vt_z = PFloat 0, vt_nx = PFloat 0, vt_ny = PFloat 0,
          vt_nz = PFloat 1, vt_s = PFloat 0, vt_t = PFloat 1\<rparr>],
      idxes = [0, 1, 2]\<rparr>"

definition mesh_node :: "int \<Rightarrow> int \<Rightarrow> IntermediateDatablock" where
  "mesh_node start cnt =
     \<lparr>datablock_info =
        \<lparr>datablock_type = ''MESH'', name = ''m'', parent_info = Some \<lparr>parent = ''ROOT''\<rparr>,
         collection = ''obj''\<rparr>,
      start_idx = Some start, count = Some cnt, animations_to_apply = []\<rparr>"

text \<open>The stream that fills that table and asks for a mesh over \<open>cnt\<close> entries from 0.\<close>

definition triangle_stream :: "int \<Rightarrow> directive list" where
  "triangle_stream cnt =
     [VT [PFloat 0, PFloat 0, PFloat 0, PFloat 0, PFloat 0, PFloat 1, PFloat 0, PFloat 0],
      VT [PFloat 1, PFloat 0, PFloat 0, PFloat 0, PFloat 0, PFloat 1, PFloat 1, PFloat 0],
      VT [PFloat 0, PFloat 1, PFloat 0, PFloat 0, PFloat 0, PFloat 1, PFloat 0, PFloat 1],
      IDX10 [0, 1, 2],
      TRIS 0 cnt ''m'']"




text \<open>
  A mesh node made by a triangle directive that did not bind it to a frame, with the
  parent \<open>pn\<close>.
\<close>

definition sibling_of :: "string \<Rightarrow> IntermediateDatablock \<Rightarrow> bool" where
  "sibling_of pn m =
     (datablock_type (datablock_info m) = ''MESH''
      \<and> parent_info (datablock_info m) = Some \<lparr>parent = pn\<rparr>
      \<and> animations_to_apply m = [])"

text \<open>
  A stream that leaves one open frame with no node, and two further triangle
  directives.
\<close>

definition open_frame_stream :: "directive list" where
  "open_frame_stream = [ANIM_begin, ANIM_trans_begin ''a'']"

definition more_tris_stream :: "directive list" where
  "more_tris_stream = [TRIS 3 3 ''second'', TRIS 6 3 []]"

text \<open>
  The frame made for the animation at address \<open>a\<close> is the top of the stack. A frame is
  the stack entry made with its animation object, so the address identifies it.
\<close>

definition frame_on_top :: "nat \<Rightarrow> ImpCommandBuilder \<Rightarrow> bool" where
  "frame_on_top a b =
     (case anim_intermediate_stack b of [] \<Rightarrow> False | e # _ \<Rightarrow> animation e = a)"

text \<open>
  An invariant of the builder: the animations of the stack entries are allocated and
  differ from one another.
\<close>

definition addrs_fresh :: "ImpCommandBuilder \<Rightarrow> bool" where
  "addrs_fresh b =
     (list_all (\<lambda>e. animation e < next_anim b) (anim_intermediate_stack b)
      \<and> distinct (map animation (anim_intermediate_stack b)))"

text \<open>
  A block with two translation animations, each followed by a triangle directive; and a
  nested block, with a mesh of its own, that is opened and closed.
\<close>

definition second_animation_stream :: "directive list" where
  "second_animation_stream =
     [ANIM_begin, ANIM_trans_begin ''a'', TRIS 0 3 ''m1'', ANIM_trans_begin ''b'',
      TRIS 3 3 ''m2'']"

definition closed_block_stream :: "directive list" where
  "closed_block_stream = [ANIM_begin, ANIM_trans_begin ''n'', TRIS 3 3 ''inner'', ANIM_end]"


section \<open>Helper lemmas\<close>

lemmas eval_defs =
  init_def make_empty_as_needed_def update_anim_def update_dataref_def current_animation_def
  new_animation_def tris_parent_name_def set_current_intermediate_datablock_def
  root_datablock_def

lemma pop_frames_length:
  "pop_frames n st = Inr st' \<Longrightarrow> length st = n + length st'"
  by (induction n st rule: pop_frames.induct) auto

lemma pop_frames_drop:
  "pop_frames n st = Inr st' \<Longrightarrow> st' = drop n st"
  by (induction n st rule: pop_frames.induct) auto

lemma make_empty_as_needed_cases:
  "make_empty_as_needed b = Inr b' \<Longrightarrow>
     (b' = b \<and>
      (case anim_intermediate_stack b of [] \<Rightarrow> True | e # _ \<Rightarrow> inter_datablock e \<noteq> None)) \<or>
     (\<exists>e es. anim_intermediate_stack b = e # es \<and> inter_datablock e = None \<and>
        b' = b\<lparr>anim_intermediate_stack := e\<lparr>inter_datablock := Some (length (blocks b))\<rparr> # es,
              blocks := blocks b @
                [\<lparr>datablock_info =
                    \<lparr>datablock_type = ''EMPTY'', name = ''next_empty_name'',
                     parent_info =
                       Some \<lparr>parent = name (datablock_info (root_intermediate_datablock b))\<rparr>,
                     collection = root_collection b\<rparr>,
                  start_idx = None, count = None, animations_to_apply = [animation e]\<rparr>]\<rparr>)"
  by (auto simp: make_empty_as_needed_def set_current_intermediate_datablock_def Let_def
      split: list.splits option.splits)

lemma depth_step:
  "depth_matches_counts b \<Longrightarrow> build_cmd f d b = Inr b' \<Longrightarrow> depth_matches_counts b'"
  by (cases d)
    (auto simp: depth_matches_counts_def Let_def update_anim_def update_dataref_def
      set_current_intermediate_datablock_def
      dest!: make_empty_as_needed_cases pop_frames_length
      split: sum.splits list.splits option.splits if_splits prod.splits)

lemma list_all_tl_drop: "list_all P (tl xs) \<Longrightarrow> list_all P (tl (drop n xs))"
  by (metis list_all_iff set_drop_subset subsetD tl_drop)

lemma below_top_step:
  "below_top_bound b \<Longrightarrow> build_cmd f d b = Inr b' \<Longrightarrow> below_top_bound b'"
  by (cases d)
    (auto simp: below_top_bound_def Let_def update_anim_def update_dataref_def
      set_current_intermediate_datablock_def list_all_tl_drop
      dest!: make_empty_as_needed_cases pop_frames_drop
      split: sum.splits list.splits option.splits if_splits prod.splits)

lemma refs_step:
  "refs_in_range b \<Longrightarrow> build_cmd f d b = Inr b' \<Longrightarrow> refs_in_range b'"
  apply (cases d)
  apply (auto simp: refs_in_range_def Let_def update_anim_def update_dataref_def
      set_current_intermediate_datablock_def list_all_iff
      dest!: make_empty_as_needed_cases pop_frames_drop
      split: sum.splits list.splits option.splits if_splits prod.splits)
  apply (meson in_set_dropD less_SucI)+
  done

lemma root_step:
  "build_cmd f d b = Inr b' \<Longrightarrow> root_intermediate_datablock b' = root_intermediate_datablock b"
  by (cases d)
    (auto simp: Let_def update_anim_def update_dataref_def
      set_current_intermediate_datablock_def
      dest!: make_empty_as_needed_cases
      split: sum.splits list.splits option.splits if_splits prod.splits)

lemma reachable_inv_init: "reachable_inv coll (init coll)"
  by (simp add: reachable_inv_def refs_in_range_def below_top_bound_def depth_matches_counts_def
      init_def)

lemma reachable_inv_step:
  "reachable_inv coll b \<Longrightarrow> build_cmd f d b = Inr b' \<Longrightarrow> reachable_inv coll b'"
  unfolding reachable_inv_def
  using refs_step below_top_step depth_step root_step by metis

lemma reachable_inv_run:
  "reachable_inv coll b \<Longrightarrow> run_stream f ds b = Inr b' \<Longrightarrow> reachable_inv coll b'"
proof (induction ds arbitrary: b)
  case Nil
  then show ?case by simp
next
  case (Cons d ds)
  then show ?case
    by (auto split: sum.splits dest: reachable_inv_step)
qed

lemma count_levels_step:
  "build_cmd f d b = Inr b' \<Longrightarrow>
   block_depth (length (anim_count b)) (d # ds) = block_depth (length (anim_count b')) ds"
  by (cases d)
    (auto simp: Let_def update_anim_def update_dataref_def
      set_current_intermediate_datablock_def
      dest!: make_empty_as_needed_cases
      split: sum.splits list.splits option.splits if_splits prod.splits)

lemma count_levels_run:
  "run_stream f ds b = Inr b' \<Longrightarrow>
   block_depth (length (anim_count b)) ds = Some (length (anim_count b'))"
proof (induction ds arbitrary: b)
  case Nil
  then show ?case by simp
next
  case (Cons d ds)
  from Cons.prems obtain b1 where s: "build_cmd f d b = Inr b1" and r: "run_stream f ds b1 = Inr b'"
    by (auto split: sum.splits)
  show ?case
    using count_levels_step [OF s, of ds] Cons.IH [OF r] by simp
qed

section \<open>C1: the nested-block stream\<close>

text \<open>
  C1. The claim is that in the stream begin-block; begin-transform; end-transform;
  begin-rotation(X); rotation-keyframe; end-rotation; end-block the closing end-block
  pops exactly two frames. On the code the stream never reaches its end-block: the
  begin-rotation directive raises AttributeError, on a new builder with any root
  collection and any float parser.
\<close>

theorem nested_block_stream_raises:
  "run_stream f nested_block_stream (init coll) = Inl AttributeError"
  by (simp add: nested_block_stream_def init_def make_empty_as_needed_def update_anim_def)

section \<open>C2: a bare translation animation\<close>

text \<open>
  C2, as stated, fails: after the stream ANIM_begin, ANIM_trans_begin("dataref/x"),
  ANIM_trans_key(0.0, loc0), ANIM_trans_key(1.0, loc1), ANIM_trans_end, ANIM_end on a new
  builder, the node list holds no node besides the synthetic root.
\<close>

theorem bare_translation_counterexample:
  "map_sum id (tl \<circ> blocks)
     (run_stream Map.empty (translation_stream ''dataref/x'' 0 (0, 0, 0) 1 (1, 0, 0)) (init ''obj''))
   = Inr []"
  by (simp add: translation_stream_def init_def make_empty_as_needed_def update_anim_def
      update_dataref_def current_animation_def new_animation_def)

text \<open>
  C2, amended: the stream is processed without error and leaves the node list with the
  synthetic root alone and the stack empty; the one animation descriptor, whose dataref
  has the given path and the 2 keyframe values and whose translation sequence has the 2
  entries, was accumulated on the frame that ANIM_end popped, and no node carries it.
\<close>

theorem bare_translation_yields_no_node:
  "\<exists>b. run_stream f (translation_stream p v0 loc0 v1 loc1) (init coll) = Inr b
     \<and> blocks b = [root_datablock coll]
     \<and> anim_intermediate_stack b = []
     \<and> next_anim b = 1
     \<and> path (xp_dataref (anims b 0)) = p
     \<and> values' (xp_dataref (anims b 0)) = [v0, v1]
     \<and> locations (anims b 0) = [loc0, loc1]"
  by (simp add: translation_stream_def init_def make_empty_as_needed_def update_anim_def
      update_dataref_def current_animation_def new_animation_def)

section \<open>C6: the stack depth returns to zero\<close>

text \<open>
  When a new builder processes a stream with balanced block markers to its last
  directive, the stack is empty again: it holds as many frames as the open counts sum
  to.
\<close>

lemma stack_depth_returns_to_zero:
  assumes "run_stream f ds (init coll) = Inr b" and "balanced ds"
  shows "anim_intermediate_stack (init coll) = [] \<and> anim_intermediate_stack b = []"
proof -
  have "reachable_inv coll b"
    using reachable_inv_run [OF reachable_inv_init assms(1)] .
  then have d: "length (anim_intermediate_stack b) = sum_list (anim_count b)"
    by (simp add: reachable_inv_def depth_matches_counts_def)
  have "block_depth (length (anim_count (init coll))) ds = Some (length (anim_count b))"
    using count_levels_run [OF assms(1)] .
  then have "anim_count b = []"
    using assms(2) by (simp add: balanced_def init_def)
  with d show ?thesis by (simp add: init_def)
qed

text \<open>
  C6. The claim is that for every well-formed stream, with balanced block markers, the
  stack depth is 0 before the first directive and 0 again after the last. On the code
  the stream of the nested-block scenario, whose markers are balanced, is not processed
  to its end: its first three directives leave one frame on the stack, the fourth, the
  begin-rotation directive, raises AttributeError there, and the end-block that would
  pop the frame is never reached.
\<close>

theorem balanced_stream_stops_open:
  "balanced nested_block_stream
   \<and> run_stream f nested_block_stream (init coll) = Inl AttributeError
   \<and> (\<exists>b. run_stream f (take 3 nested_block_stream) (init coll) = Inr b
         \<and> length (anim_intermediate_stack b) = 1
         \<and> build_cmd f (nested_block_stream ! 3) b = Inl AttributeError)"
  by (simp add: balanced_def nested_block_stream_def init_def make_empty_as_needed_def
      update_anim_def)

section \<open>C3: recomposing split rotations\<close>

text \<open>
  C3. The claim is that rotations of 10 degrees about X and 20 about Y, with nothing
  recorded about Z, recompose at keyframe 0 into (10, 20, 0). On the code the lookup of
  the Z axis raises KeyError, in \<^verbatim>\<open>recompose_rotation\<close> and so in \<^verbatim>\<open>apply_animation\<close>.
\<close>

theorem recompose_missing_axis_raises:
  "recompose_rotation split_rotation_animation 0 = Inl KeyError
   \<and> apply_animation split_rotation_animation = Inl KeyError"
  by (simp add: recompose_rotation_def rotation_at_def split_rotation_animation_def
      apply_animation_def default_dataref_def)

section \<open>C9: the parent of a lazily created empty node\<close>

text \<open>
  C9. In every state a new builder reaches, a begin-transform directive that is
  processed appends a node exactly when the stack is non-empty and its top frame has no
  bound node; that node is an empty node whose parent is the synthetic root \<open>ROOT\<close>,
  whatever the frames below the top are bound to. Otherwise it appends no node.
\<close>

theorem lazy_empty_parent_is_root:
  assumes reach: "run_stream f ds (init coll) = Inr b"
    and step: "build_cmd f (ANIM_trans_begin p) b = Inr b'"
  shows "if anim_intermediate_stack b \<noteq> [] \<and> inter_datablock (hd (anim_intermediate_stack b)) = None
         then \<exists>empt. blocks b' = blocks b @ [empt]
                \<and> datablock_type (datablock_info empt) = ''EMPTY''
                \<and> parent_info (datablock_info empt) = Some \<lparr>parent = ''ROOT''\<rparr>
         else blocks b' = blocks b"
proof -
  have "reachable_inv coll b"
    using reachable_inv_run [OF reachable_inv_init reach] .
  then have root: "name (datablock_info (root_intermediate_datablock b)) = ''ROOT''"
    by (simp add: reachable_inv_def root_datablock_def)
  from step obtain b1 where m: "make_empty_as_needed b = Inr b1" and bl: "blocks b' = blocks b1"
    by (auto simp: Let_def update_anim_def split: sum.splits list.splits)
  from make_empty_as_needed_cases [OF m] root bl show ?thesis
    by (auto split: list.splits)
qed

theorem lazy_empty_parent_is_root_witness:
  "\<exists>b b'. run_stream Map.empty enclosing_bound_stream (init ''obj'') = Inr b
     \<and> build_cmd Map.empty (ANIM_trans_begin ''c'') b = Inr b'
     \<and> map inter_datablock (anim_intermediate_stack b) = [None, Some 1]
     \<and> (\<exists>empt. blocks b' = blocks b @ [empt]
           \<and> datablock_type (datablock_info empt) = ''EMPTY''
           \<and> parent_info (datablock_info empt) = Some \<lparr>parent = ''ROOT''\<rparr>)"
proof -
  obtain b where r: "run_stream Map.empty enclosing_bound_stream (init ''obj'') = Inr b"
    and st: "map inter_datablock (anim_intermediate_stack b) = [None, Some 1]"
    and cnt: "anim_count b = [1, 1]"
    by (simp add: enclosing_bound_stream_def eval_defs)
  obtain b' where s: "build_cmd Map.empty (ANIM_trans_begin ''c'') b = Inr b'"
    using st cnt
    by (auto simp: make_empty_as_needed_def set_current_intermediate_datablock_def Let_def
        update_anim_def split: list.splits option.splits)
  from lazy_empty_parent_is_root [OF r s] st r s show ?thesis
    by (cases "anim_intermediate_stack b") auto
qed

section \<open>C10: appending a vertex\<close>

text \<open>
  C10, as stated, fails: a geometry-vertex directive whose first field is an int too
  large for a float raises OverflowError, which \<^verbatim>\<open>__post_init__\<close> does not catch.
\<close>

theorem vt_overflow_counterexample:
  "build_cmd Map.empty
     (VT [PInt (2 ^ 1024), PFloat 0, PFloat 0, PFloat 0, PFloat 0, PFloat 0, PFloat 0, PFloat 0])
     (init ''obj'')
   = Inl OverflowError"
  by (simp add: VT_new_def VT_annotations_def py_float_def)

lemma bit_length_le: "n < 2 ^ k \<Longrightarrow> bit_length n \<le> k"
proof (induction k arbitrary: n)
  case 0
  then show ?case by (simp add: bit_length.simps)
next
  case (Suc k)
  show ?case
  proof (cases "n \<le> 0")
    case True
    then show ?thesis by (simp add: bit_length.simps)
  next
    case False
    from Suc.prems have "n div 2 < 2 ^ k" by simp
    from Suc.IH [OF this] False show ?thesis
      by (subst bit_length.simps) simp
  qed
qed

lemma round_to_double_small: "\<bar>i\<bar> < 2 ^ 53 \<Longrightarrow> round_to_double i = i"
proof -
  assume "\<bar>i\<bar> < 2 ^ 53"
  from bit_length_le [OF this] show ?thesis
    by (simp add: round_to_double_def Let_def sgn_mult_abs)
qed

lemma py_float_in_range:
  "in_float_range v \<Longrightarrow> py_float f v = Inl ValueError \<or> (\<exists>r. py_float f v = Inr r)"
  by (auto simp: in_float_range_def py_float_def split: pyval.splits option.splits)

lemma post_init_in_range:
  "list_all in_float_range (map snd avs) \<Longrightarrow>
   post_init f avs =
     Inr (map (post_init_value f \<circ> snd) avs, concat (map (post_init_message f) avs))"
proof (induction avs)
  case Nil
  then show ?case by simp
next
  case (Cons av avs)
  obtain a v where av: "av = (a, v)" by (cases av)
  from Cons.prems av have "in_float_range v" by simp
  from py_float_in_range [OF this, of f] Cons av show ?case
    by (auto simp: post_init_value_def post_init_message_def)
qed

lemma length_8E:
  assumes "length xs = 8"
  obtains a1 a2 a3 a4 a5 a6 a7 a8 where "xs = [a1, a2, a3, a4, a5, a6, a7, a8]"
  using assms by (auto simp: length_Suc_conv eval_nat_numeral)

text \<open>
  C10, amended: a geometry-vertex directive with 8 arguments, none of them an int out of
  the range of a float, never fails. It appends one vertex to the table; each field is
  the float of its argument, or the argument itself, unconverted, where \<^verbatim>\<open>float\<close>
  raised ValueError; one message is printed for each such field, in field order.
\<close>

theorem vt_append_keeps_unconvertible:
  assumes len: "length args = 8" and rng: "list_all in_float_range args"
  shows "\<exists>v. build_cmd f (VT args) b =
             Inr (b\<lparr>vt_table := (vt_table b)\<lparr>vertices := vertices (vt_table b) @ [v]\<rparr>,
                    stdout := stdout b @ concat (map (post_init_message f) (zip VT_annotations args))\<rparr>)
           \<and> [vt_x v, vt_y v, vt_z v, vt_nx v, vt_ny v, vt_nz v, vt_s v, vt_t v]
               = map (post_init_value f) args"
proof -
  from len obtain a1 a2 a3 a4 a5 a6 a7 a8 where args: "args = [a1, a2, a3, a4, a5, a6, a7, a8]"
    by (rule length_8E)
  have "list_all in_float_range (map snd (zip VT_annotations args))"
    using rng args by (simp add: VT_annotations_def)
  from post_init_in_range [OF this, of f] show ?thesis
    by (intro exI [where x = "\<lparr>vt_x = post_init_value f a1, vt_y = post_init_value f a2,
          vt_z = post_init_value f a3, vt_nx = post_init_value f a4, vt_ny = post_init_value f a5,
          vt_nz = post_init_value f a6, vt_s = post_init_value f a7,
          vt_t = post_init_value f a8\<rparr>"])
      (simp add: VT_new_def args VT_annotations_def)
qed

theorem vt_append_keeps_unconvertible_witness:
  "length [PStr ''abc'', PInt 2, PFloat 3, PFloat 0, PFloat 0, PFloat 1, PFloat 0, PFloat 0] = 8
   \<and> list_all in_float_range [PStr ''abc'', PInt 2, PFloat 3, PFloat 0, PFloat 0, PFloat 1, PFloat 0, PFloat 0]
   \<and> (\<exists>v. build_cmd Map.empty
            (VT [PStr ''abc'', PInt 2, PFloat 3, PFloat 0, PFloat 0, PFloat 1, PFloat 0, PFloat 0])
            (init ''obj'') =
           Inr ((init ''obj'')\<lparr>vt_table := \<lparr>vertices = [v], idxes = []\<rparr>,
                               stdout := [Couldnt_convert ''x'' (PStr ''abc'')]\<rparr>)
         \<and> [vt_x v, vt_y v, vt_z v, vt_nx v, vt_ny v, vt_nz v, vt_s v, vt_t v]
             = [PStr ''abc'', PFloat 2, PFloat 3, PFloat 0, PFloat 0, PFloat 1, PFloat 0, PFloat 0])"
proof -
  have l: "length [PStr ''abc'', PInt 2, PFloat 3, PFloat 0, PFloat 0, PFloat 1, PFloat 0, PFloat 0] = 8"
    by simp
  have r: "list_all in_float_range
             [PStr ''abc'', PInt 2, PFloat 3, PFloat 0, PFloat 0, PFloat 1, PFloat 0, PFloat 0]"
    by (simp add: in_float_range_def)
  from vt_append_keeps_unconvertible [OF l r, of Map.empty "init ''obj''"] l r show ?thesis
    by (simp add: post_init_value_def post_init_message_def py_float_def VT_annotations_def init_def
        round_to_double_small)
qed

section \<open>C5: triangle winding\<close>

lemma mesh_faces_nth:
  "3 * k + 2 < length xs \<Longrightarrow>
   k < length (mesh_faces start xs) \<and>
   mesh_faces start xs ! k =
     [xs ! (3 * k + 2) - start, xs ! (3 * k + 1) - start, xs ! (3 * k) - start]"
proof (induction start xs arbitrary: k rule: mesh_faces.induct)
  case (1 start)
  then show ?case by simp
next
  case (2 start x xs)
  from "2.prems" obtain y z rest where xs: "xs = y # z # rest"
    by (cases xs; cases "tl xs") auto
  show ?case
  proof (cases k)
    case 0
    then show ?thesis by (simp add: xs)
  next
    case (Suc j)
    with "2.prems" xs have "3 * j + 2 < length (drop 3 (x # xs))" by simp
    from "2.IH" [OF this] Suc xs show ?thesis by simp
  qed
qed

lemma build_mesh_from_pydata:
  assumes "build_mesh validate blk vt = Inr (blk', rs)"
    and "start_idx blk = Some start" and "count blk = Some cnt"
  shows "rs ! 1 =
           From_pydata (map (\<lambda>v. (vt_x v, vt_y v, vt_z v)) (mesh_vertices vt start cnt))
             (mesh_faces start (mesh_idxes vt start cnt))"
  using assms
  by (auto simp: build_mesh_def Let_def split: option.splits sum.splits if_splits)

text \<open>
  C5. For every mesh node that \<^verbatim>\<open>build_mesh\<close> materializes, the faces handed to the
  host reverse the winding of the input: the \<open>k\<close>-th run of three indices \<open>a, b, c\<close> of
  the node's slice of the index table gives the face \<open>c, b, a\<close>, each index rebased by
  the start of the node's geometry range.
\<close>

theorem winding_reversed:
  assumes "build_mesh validate blk vt = Inr (blk', rs)"
    and "start_idx blk = Some start" and "count blk = Some cnt"
    and "3 * k + 2 < length (mesh_idxes vt start cnt)"
  shows "\<exists>pos faces. rs ! 1 = From_pydata pos faces \<and> k < length faces
           \<and> faces ! k =
               [mesh_idxes vt start cnt ! (3 * k + 2) - start,
                mesh_idxes vt start cnt ! (3 * k + 1) - start,
                mesh_idxes vt start cnt ! (3 * k) - start]"
  using build_mesh_from_pydata [OF assms(1-3)] mesh_faces_nth [OF assms(4), of start]
  by simp

theorem winding_reversed_witness:
  "\<exists>blk' rs. build_mesh (\<lambda>pos faces. False) (mesh_node 0 3) short_table = Inr (blk', rs)
     \<and> start_idx (mesh_node 0 3) = Some 0 \<and> count (mesh_node 0 3) = Some 3
     \<and> 3 * 0 + 2 < length (mesh_idxes short_table 0 3)
     \<and> mesh_idxes short_table 0 3 = [0, 1, 2]
     \<and> (\<exists>pos faces. rs ! 1 = From_pydata pos faces \<and> faces ! 0 = [2, 1, 0])"
proof -
  have i: "mesh_idxes short_table 0 3 = [0, 1, 2]"
    by (simp add: mesh_idxes_def short_table_def py_slice_def slice_bound_def)
  obtain blk' rs where bm: "build_mesh (\<lambda>pos faces. False) (mesh_node 0 3) short_table = Inr (blk', rs)"
    by (simp add: build_mesh_def mesh_node_def mesh_idxes_def mesh_vertices_def short_table_def
        py_slice_def slice_bound_def py_index_def Let_def)
  have s: "start_idx (mesh_node 0 3) = Some 0" and c: "count (mesh_node 0 3) = Some 3"
    by (simp_all add: mesh_node_def)
  have k: "3 * 0 + 2 < length (mesh_idxes short_table 0 3)"
    by (simp add: i)
  from winding_reversed [OF bm s c k] bm s c k i show ?thesis
    by auto
qed

section \<open>C7: slicing past the end of the table\<close>

text \<open>
  C7, as stated, fails: with three indices and three vertices in the table, a mesh node
  over the range (0, 5) is finalized without any error and receives the three entries
  there are.
\<close>

theorem slice_past_end_counterexample:
  "map_sum id snd
     (parse_and_finalize Map.empty (\<lambda>pos faces. False) ''obj'' (triangle_stream 5))
   = Inr [Create_datablock_mesh
            \<lparr>datablock_type = ''MESH'', name = ''m'', parent_info = None, collection = ''obj''\<rparr>,
          From_pydata
            [(PFloat 0, PFloat 0, PFloat 0), (PFloat 1, PFloat 0, PFloat 0),
             (PFloat 0, PFloat 1, PFloat 0)]
            [[2, 1, 0]],
          Set_normals_uvs
            {(0, (PFloat 0, PFloat 0, PFloat 1), (PFloat 0, PFloat 0)),
             (1, (PFloat 0, PFloat 0, PFloat 1), (PFloat 1, PFloat 0)),
             (2, (PFloat 0, PFloat 0, PFloat 1), (PFloat 0, PFloat 1))},
          Set_material, Set_frame_current 1]"
  by (simp add: parse_and_finalize_def triangle_stream_def eval_defs VT_new_def VT_annotations_def
      py_float_def finalize_intermediate_blocks_def build_mesh_def mesh_idxes_def
      mesh_vertices_def py_slice_def slice_bound_def py_index_def insert_commute)

lemma py_slice_past_end:
  assumes "int (length xs) < start + cnt"
  shows "py_slice xs start (start + cnt) = drop (slice_bound (length xs) start) xs"
  using assms by (simp add: py_slice_def slice_bound_def Let_def)

lemma py_slice_past_end_nonneg:
  assumes "0 \<le> start" "0 < cnt" "int (length xs) < start + cnt"
  shows "py_slice xs start (start + cnt) = drop (nat start) xs
         \<and> int (length (py_slice xs start (start + cnt))) < cnt"
proof (cases "nat start \<le> length xs")
  case True
  with assms show ?thesis
    by (simp add: py_slice_def slice_bound_def Let_def min_def)
next
  case False
  with assms show ?thesis
    by (simp add: py_slice_def slice_bound_def Let_def min_def)
qed

text \<open>
  C7, amended: for every mesh node whose geometry range (start, count), with start not
  negative and count positive, reaches past the end of the index table (of the vertex
  table), slicing that table does not fail: the slice is the table's entries from start
  to the end, fewer than count. When both tables are that short and \<^verbatim>\<open>build_mesh\<close>
  returns, these shorter slices are what it has handed to the host: the positions of
  the vertices from start on, and the faces of the indices from start on.
\<close>

theorem slice_clamps_to_table:
  assumes "0 \<le> start" and "0 < cnt"
  shows "(int (length (idxes vt)) < start + cnt \<longrightarrow>
           mesh_idxes vt start cnt = drop (nat start) (idxes vt)
           \<and> int (length (mesh_idxes vt start cnt)) < cnt)
       \<and> (int (length (vertices vt)) < start + cnt \<longrightarrow>
           mesh_vertices vt start cnt = drop (nat start) (vertices vt)
           \<and> int (length (mesh_vertices vt start cnt)) < cnt)
       \<and> (\<forall>validate blk blk' rs.
             build_mesh validate blk vt = Inr (blk', rs)
             \<and> start_idx blk = Some start \<and> count blk = Some cnt
             \<and> int (length (idxes vt)) < start + cnt
             \<and> int (length (vertices vt)) < start + cnt \<longrightarrow>
             rs ! 1 = From_pydata
                        (map (\<lambda>v. (vt_x v, vt_y v, vt_z v)) (drop (nat start) (vertices vt)))
                        (mesh_faces start (drop (nat start) (idxes vt))))"
proof -
  have i: "mesh_idxes vt start cnt = drop (nat start) (idxes vt)
           \<and> int (length (mesh_idxes vt start cnt)) < cnt"
    if "int (length (idxes vt)) < start + cnt"
    using py_slice_past_end_nonneg [OF assms that] unfolding mesh_idxes_def .
  have v: "mesh_vertices vt start cnt = drop (nat start) (vertices vt)
           \<and> int (length (mesh_vertices vt start cnt)) < cnt"
    if "int (length (vertices vt)) < start + cnt"
    using py_slice_past_end_nonneg [OF assms that] unfolding mesh_vertices_def .
  have m: "rs ! 1 = From_pydata
                        (map (\<lambda>v. (vt_x v, vt_y v, vt_z v)) (drop (nat start) (vertices vt)))
                        (mesh_faces start (drop (nat start) (idxes vt)))"
    if "build_mesh validate blk vt = Inr (blk', rs)" "start_idx blk = Some start"
      "count blk = Some cnt" "int (length (idxes vt)) < start + cnt"
      "int (length (vertices vt)) < start + cnt"
    for validate blk blk' rs
    using build_mesh_from_pydata [OF that(1,2,3)] i [OF that(4)] v [OF that(5)] by simp
  from i v m show ?thesis by blast
qed

theorem slice_clamps_to_table_witness:
  "(0::int) \<le> 0 \<and> (0::int) < 5
   \<and> int (length (idxes short_table)) < 0 + 5
   \<and> mesh_idxes short_table 0 5 = [0, 1, 2]
   \<and> int (length (vertices short_table)) < 0 + 5
   \<and> length (mesh_vertices short_table 0 5) = 3
   \<and> (\<exists>blk' rs. build_mesh (\<lambda>pos faces. False) (mesh_node 0 5) short_table = Inr (blk', rs)
         \<and> rs ! 1 = From_pydata
                       [(PFloat 0, PFloat 0, PFloat 0), (PFloat 1, PFloat 0, PFloat 0),
                        (PFloat 0, PFloat 1, PFloat 0)]
                       [[2, 1, 0]])"
proof -
  have a: "(0::int) \<le> 0" and b: "(0::int) < 5" by simp_all
  obtain blk' rs where bm: "build_mesh (\<lambda>pos faces. False) (mesh_node 0 5) short_table = Inr (blk', rs)"
    by (simp add: build_mesh_def mesh_node_def mesh_idxes_def mesh_vertices_def short_table_def
        py_slice_def slice_bound_def py_index_def Let_def)
  have s: "start_idx (mesh_node 0 5) = Some 0" "count (mesh_node 0 5) = Some 5"
    by (simp_all add: mesh_node_def)
  from slice_clamps_to_table [OF a b, of short_table] bm s show ?thesis
    by (simp add: short_table_def)
qed

section \<open>C8: finalizing twice\<close>






section \<open>C4: triangle directives and the open frame\<close>

lemma tris_parent_name_total:
  "below_top_bound b \<Longrightarrow> \<exists>pn. tris_parent_name b = Inr pn"
  by (auto simp: below_top_bound_def tris_parent_name_def split: list.splits option.splits)

lemma tris_parent_name_cong:
  "anim_intermediate_stack b' = anim_intermediate_stack b \<Longrightarrow> blocks b' = blocks b \<Longrightarrow>
   root_intermediate_datablock b' = root_intermediate_datablock b \<Longrightarrow>
   tris_parent_name b' = tris_parent_name b"
  by (auto simp: tris_parent_name_def split: list.splits option.splits)

lemma tris_parent_name_extend:
  "refs_in_range b \<Longrightarrow> tl (anim_intermediate_stack b') = tl (anim_intermediate_stack b) \<Longrightarrow>
   anim_intermediate_stack b \<noteq> [] \<Longrightarrow> anim_intermediate_stack b' \<noteq> [] \<Longrightarrow>
   blocks b' = blocks b @ ms \<Longrightarrow>
   root_intermediate_datablock b' = root_intermediate_datablock b \<Longrightarrow>
   tris_parent_name b' = tris_parent_name b"
  by (cases "anim_intermediate_stack b"; cases "anim_intermediate_stack b'")
    (auto simp: tris_parent_name_def refs_in_range_def nth_append
      split: list.splits option.splits)

lemma tris_unbound_step:
  assumes "anim_intermediate_stack b = e # es" and "inter_datablock e = None"
    and "tris_parent_name b = Inr pn"
  shows "\<exists>m. build_cmd f (TRIS start cnt hint) b =
               Inr (b\<lparr>blocks := blocks b @ [m],
                      anim_intermediate_stack := e\<lparr>inter_datablock := Some (length (blocks b))\<rparr> # es\<rparr>)
           \<and> datablock_type (datablock_info m) = ''MESH''
           \<and> parent_info (datablock_info m) = Some \<lparr>parent = pn\<rparr>
           \<and> start_idx m = Some start \<and> count m = Some cnt
           \<and> animations_to_apply m = [animation e]"
  using assms
  by (cases "hint = []")
    (simp_all add: current_animation_def set_current_intermediate_datablock_def Let_def,
      (rule exI, rule conjI, rule refl, simp)+)

lemma tris_bound_step:
  assumes "anim_intermediate_stack b = e # es" and "inter_datablock e \<noteq> None"
    and "tris_parent_name b = Inr pn"
  shows "\<exists>m. build_cmd f (TRIS start cnt hint) b = Inr (b\<lparr>blocks := blocks b @ [m]\<rparr>)
           \<and> datablock_type (datablock_info m) = ''MESH''
           \<and> parent_info (datablock_info m) = Some \<lparr>parent = pn\<rparr>
           \<and> start_idx m = Some start \<and> count m = Some cnt
           \<and> animations_to_apply m = []"
proof -
  from assms(2) obtain k where k: "inter_datablock e = Some k" by auto
  show ?thesis
    using assms(1,3) k
    by (cases "hint = []")
      (simp_all add: current_animation_def set_current_intermediate_datablock_def Let_def,
        (rule exI, rule conjI, rule refl, simp)+)
qed

lemma same_level_other_step:
  assumes "same_level d" and "\<not> is_tris d" and "build_cmd f d b = Inr b'"
  shows "anim_intermediate_stack b' = anim_intermediate_stack b \<and> blocks b' = blocks b
       \<and> root_intermediate_datablock b' = root_intermediate_datablock b"
  using assms
  by (cases d)
    (auto simp: update_anim_def update_dataref_def split: sum.splits option.splits prod.splits)

lemma same_level_run:
  assumes "list_all same_level ds" and "run_stream f ds b = Inr b2"
    and "anim_intermediate_stack b = e # es" and "inter_datablock e \<noteq> None"
    and "tris_parent_name b = Inr pn" and "refs_in_range b"
  shows "anim_intermediate_stack b2 = anim_intermediate_stack b
       \<and> (\<exists>ms. blocks b2 = blocks b @ ms \<and> length ms = length (filter is_tris ds)
             \<and> list_all (sibling_of pn) ms)"
  using assms
proof (induction ds arbitrary: b)
  case Nil
  then show ?case by simp
next
  case (Cons d ds)
  from Cons.prems(2) obtain b1 where s: "build_cmd f d b = Inr b1"
    and r: "run_stream f ds b1 = Inr b2"
    by (auto split: sum.splits)
  from Cons.prems(1) have sl: "same_level d" and sls: "list_all same_level ds" by simp_all
  have refs1: "refs_in_range b1" using refs_step [OF Cons.prems(6) s] .
  show ?case
  proof (cases "is_tris d")
    case True
    then obtain start cnt hint where d: "d = TRIS start cnt hint" by (cases d) auto
    from tris_bound_step [OF Cons.prems(3,4,5), of f start cnt hint] s d
    obtain m where b1: "b1 = b\<lparr>blocks := blocks b @ [m]\<rparr>" and sib: "sibling_of pn m"
      by (auto simp: sibling_of_def)
    have st1: "anim_intermediate_stack b1 = e # es" using b1 Cons.prems(3) by simp
    have pn1: "tris_parent_name b1 = Inr pn"
      using tris_parent_name_extend [OF Cons.prems(6), of b1 "[m]"] Cons.prems(3,5) b1 by simp
    from Cons.IH [OF sls r st1 Cons.prems(4) pn1 refs1] obtain ms
      where "anim_intermediate_stack b2 = anim_intermediate_stack b1"
        and "blocks b2 = blocks b1 @ ms" and "length ms = length (filter is_tris ds)"
        and "list_all (sibling_of pn) ms"
      by blast
    with b1 sib d st1 Cons.prems(3) show ?thesis
      by (intro conjI exI [where x = "m # ms"]) simp_all
  next
    case False
    from same_level_other_step [OF sl False s]
    have same: "anim_intermediate_stack b1 = anim_intermediate_stack b" "blocks b1 = blocks b"
      "root_intermediate_datablock b1 = root_intermediate_datablock b"
      by simp_all
    have st1: "anim_intermediate_stack b1 = e # es" using same Cons.prems(3) by simp
    have pn1: "tris_parent_name b1 = Inr pn"
      using tris_parent_name_cong [OF same] Cons.prems(5) by simp
    from Cons.IH [OF sls r st1 Cons.prems(4) pn1 refs1] same False show ?thesis
      by simp
  qed
qed

lemma tris_run_total:
  assumes "list_all is_tris ds"
    and "anim_intermediate_stack b = e # es" and "inter_datablock e \<noteq> None"
    and "tris_parent_name b = Inr pn" and "refs_in_range b"
  shows "\<exists>b2. run_stream f ds b = Inr b2"
  using assms
proof (induction ds arbitrary: b)
  case Nil
  then show ?case by simp
next
  case (Cons d ds)
  from Cons.prems(1) obtain start cnt hint where d: "d = TRIS start cnt hint"
    by (cases d) auto
  from tris_bound_step [OF Cons.prems(2,3,4), of f start cnt hint]
  obtain m where s: "build_cmd f d b = Inr (b\<lparr>blocks := blocks b @ [m]\<rparr>)"
    using d by blast
  let ?b1 = "b\<lparr>blocks := blocks b @ [m]\<rparr>"
  have refs1: "refs_in_range ?b1" using refs_step [OF Cons.prems(5) s] .
  have st1: "anim_intermediate_stack ?b1 = e # es" using Cons.prems(2) by simp
  have pn1: "tris_parent_name ?b1 = Inr pn"
    using tris_parent_name_extend [OF Cons.prems(5), of ?b1 "[m]"] Cons.prems(2,4) by simp
  from Cons.prems(1) have "list_all is_tris ds" by simp
  from Cons.IH [OF this st1 Cons.prems(3) pn1 refs1] s show ?case
    by simp
qed

text \<open>How one directive changes the stack and the next free address.\<close>

lemma build_cmd_stack_effect:
  assumes "build_cmd f d b = Inr b'"
  shows "(next_anim b' = next_anim b \<and>
           (anim_intermediate_stack b' = anim_intermediate_stack b
            \<or> (\<exists>e es k. anim_intermediate_stack b = e # es \<and> inter_datablock e = None
                  \<and> anim_intermediate_stack b' = e\<lparr>inter_datablock := Some k\<rparr> # es)
            \<or> (\<exists>n. anim_intermediate_stack b' = drop n (anim_intermediate_stack b))))
       \<or> (next_anim b' = Suc (next_anim b) \<and>
           (\<exists>st. anim_intermediate_stack b' = \<lparr>animation = next_anim b, inter_datablock = None\<rparr> # st
              \<and> (st = anim_intermediate_stack b
                 \<or> (\<exists>e es k. anim_intermediate_stack b = e # es \<and> inter_datablock e = None
                       \<and> st = e\<lparr>inter_datablock := Some k\<rparr> # es))))"
  using assms
  apply (cases d)
  apply (auto simp: Let_def update_anim_def update_dataref_def
      set_current_intermediate_datablock_def
      dest!: make_empty_as_needed_cases pop_frames_drop
      split: sum.splits list.splits option.splits if_splits prod.splits)
  done

lemma addrs_fresh_step:
  assumes "addrs_fresh b" and "build_cmd f d b = Inr b'"
  shows "addrs_fresh b'"
proof -
  let ?st = "anim_intermediate_stack b"
  from assms(1) have lt: "\<forall>x\<in>set ?st. animation x < next_anim b"
    and dist: "distinct (map animation ?st)"
    by (simp_all add: addrs_fresh_def list_all_iff)
  have push': "list_all (\<lambda>x. animation x < Suc (next_anim b))
                 (\<lparr>animation = next_anim b, inter_datablock = None\<rparr> # st)
              \<and> distinct (map animation (\<lparr>animation = next_anim b, inter_datablock = None\<rparr> # st))"
    if "map animation st = map animation ?st" for st
  proof -
    have lt': "animation x < next_anim b" if "x \<in> set st" for x
    proof -
      from that have "animation x \<in> set (map animation st)" by simp
      then have "animation x \<in> set (map animation ?st)"
        using \<open>map animation st = map animation ?st\<close> by simp
      then obtain y where "y \<in> set ?st" and "animation y = animation x" by auto
      with lt show ?thesis by metis
    qed
    have "distinct (map animation st)" using that dist by simp
    moreover have "next_anim b \<notin> set (map animation st)"
      using lt' by fastforce
    ultimately show ?thesis
      using lt' by (simp add: list_all_iff less_SucI)
  qed
  from build_cmd_stack_effect [OF assms(2)] consider
      (same) "next_anim b' = next_anim b" "anim_intermediate_stack b' = ?st"
    | (bound) e es k where "next_anim b' = next_anim b" "?st = e # es"
        "anim_intermediate_stack b' = e\<lparr>inter_datablock := Some k\<rparr> # es"
    | (pop) m where "next_anim b' = next_anim b" "anim_intermediate_stack b' = drop m ?st"
    | (push) "next_anim b' = Suc (next_anim b)"
        "anim_intermediate_stack b' = \<lparr>animation = next_anim b, inter_datablock = None\<rparr> # ?st"
    | (bind_push) e es k where "next_anim b' = Suc (next_anim b)" "?st = e # es"
        "anim_intermediate_stack b' =
           \<lparr>animation = next_anim b, inter_datablock = None\<rparr> # e\<lparr>inter_datablock := Some k\<rparr> # es"
    by blast
  then show ?thesis
  proof cases
    case same
    with assms(1) show ?thesis by (simp add: addrs_fresh_def)
  next
    case bound
    with lt dist show ?thesis by (simp add: addrs_fresh_def list_all_iff)
  next
    case pop
    have "distinct (drop m (map animation ?st))" using dist by (rule distinct_drop)
    then have "distinct (map animation (drop m ?st))" by (simp add: drop_map)
    moreover have "\<forall>x\<in>set (drop m ?st). animation x < next_anim b"
      using lt by (auto dest: in_set_dropD)
    ultimately show ?thesis using pop by (simp add: addrs_fresh_def list_all_iff)
  next
    case push
    from push' [of ?st] push show ?thesis by (simp add: addrs_fresh_def)
  next
    case bind_push
    have "map animation (e\<lparr>inter_datablock := Some k\<rparr> # es) = map animation ?st"
      using bind_push(2) by simp
    from push' [OF this] bind_push show ?thesis by (simp add: addrs_fresh_def)
  qed
qed

lemma addrs_fresh_init: "addrs_fresh (init coll)"
  by (simp add: addrs_fresh_def init_def)

lemma addrs_fresh_run:
  "addrs_fresh b \<Longrightarrow> run_stream f ds b = Inr b' \<Longrightarrow> addrs_fresh b'"
proof (induction ds arbitrary: b)
  case Nil
  then show ?case by simp
next
  case (Cons d ds)
  then show ?case
    by (auto split: sum.splits dest: addrs_fresh_step)
qed

lemma unbound_top_in_prefix:
  assumes "list_all (\<lambda>e. inter_datablock e \<noteq> None) st"
    and "e # es = pre @ drop j st" and "inter_datablock e = None"
  obtains pre' where "pre = e # pre'" and "es = pre' @ drop j st"
proof (cases pre)
  case Nil
  with assms(2) have "e \<in> set (drop j st)" by (metis append_Nil list.set_intros(1))
  then have "e \<in> set st" by (rule in_set_dropD)
  with assms(1,3) have False by (auto simp: list_all_iff)
  then show ?thesis ..
next
  case (Cons x pre')
  with assms(2) that show ?thesis by simp
qed

lemma stack_over_step:
  assumes bound: "list_all (\<lambda>e. inter_datablock e \<noteq> None) st"
    and over: "anim_intermediate_stack b = pre @ drop j st"
    and fresh: "list_all (\<lambda>x. n \<le> animation x) pre"
    and nxt: "n \<le> next_anim b"
    and step: "build_cmd f d b = Inr b'"
  shows "\<exists>pre' j'. anim_intermediate_stack b' = pre' @ drop j' st
           \<and> list_all (\<lambda>x. n \<le> animation x) pre' \<and> n \<le> next_anim b'"
proof -
  have bind: "\<exists>pre' j'. e\<lparr>inter_datablock := Some k\<rparr> # es = pre' @ drop j' st
                \<and> list_all (\<lambda>x. n \<le> animation x) pre'"
    if "anim_intermediate_stack b = e # es" and "inter_datablock e = None" for e es k
  proof -
    from that(1) over have "e # es = pre @ drop j st" by simp
    from unbound_top_in_prefix [OF bound this that(2)] obtain pre'
      where p: "pre = e # pre'" and es: "es = pre' @ drop j st" .
    from p fresh have "list_all (\<lambda>x. n \<le> animation x) (e\<lparr>inter_datablock := Some k\<rparr> # pre')"
      by simp
    with es show ?thesis
      by (intro exI [where x = "e\<lparr>inter_datablock := Some k\<rparr> # pre'"] exI [where x = j]) simp
  qed
  from build_cmd_stack_effect [OF step] consider
      (same) "next_anim b' = next_anim b" "anim_intermediate_stack b' = anim_intermediate_stack b"
    | (bound) e es k where "next_anim b' = next_anim b" "anim_intermediate_stack b = e # es"
        "inter_datablock e = None" "anim_intermediate_stack b' = e\<lparr>inter_datablock := Some k\<rparr> # es"
    | (pop) m where "next_anim b' = next_anim b"
        "anim_intermediate_stack b' = drop m (anim_intermediate_stack b)"
    | (push) "next_anim b' = Suc (next_anim b)"
        "anim_intermediate_stack b' =
           \<lparr>animation = next_anim b, inter_datablock = None\<rparr> # anim_intermediate_stack b"
    | (bind_push) e es k where "next_anim b' = Suc (next_anim b)"
        "anim_intermediate_stack b = e # es" "inter_datablock e = None"
        "anim_intermediate_stack b' =
           \<lparr>animation = next_anim b, inter_datablock = None\<rparr> # e\<lparr>inter_datablock := Some k\<rparr> # es"
    by blast
  then show ?thesis
  proof cases
    case same
    with over fresh nxt show ?thesis by auto
  next
    case bound
    from bind [OF bound(2,3), of k] bound(1,4) nxt show ?thesis by auto
  next
    case pop
    have "drop m (pre @ drop j st) = drop m pre @ drop (j + (m - length pre)) st"
      by (simp add: add.commute)
    moreover have "list_all (\<lambda>x. n \<le> animation x) (drop m pre)"
      using fresh by (auto simp: list_all_iff dest: in_set_dropD)
    ultimately show ?thesis using pop over nxt by auto
  next
    case push
    have "list_all (\<lambda>x. n \<le> animation x) (\<lparr>animation = next_anim b, inter_datablock = None\<rparr> # pre)"
      using fresh nxt by simp
    with push over nxt show ?thesis
      by (intro exI [where x = "\<lparr>animation = next_anim b, inter_datablock = None\<rparr> # pre"]
          exI [where x = j]) simp
  next
    case bind_push
    from bind [OF bind_push(2,3), of k] obtain pre' j'
      where "e\<lparr>inter_datablock := Some k\<rparr> # es = pre' @ drop j' st"
        and "list_all (\<lambda>x. n \<le> animation x) pre'"
      by blast
    with bind_push(1,4) nxt show ?thesis
      by (intro exI [where x = "\<lparr>animation = next_anim b, inter_datablock = None\<rparr> # pre'"]
          exI [where x = j']) simp
  qed
qed

lemma stack_over_run:
  assumes "list_all (\<lambda>e. inter_datablock e \<noteq> None) st"
    and "anim_intermediate_stack b = pre @ drop j st"
    and "list_all (\<lambda>x. n \<le> animation x) pre"
    and "n \<le> next_anim b"
    and "run_stream f ds b = Inr b'"
  shows "\<exists>pre' j'. anim_intermediate_stack b' = pre' @ drop j' st
           \<and> list_all (\<lambda>x. n \<le> animation x) pre'"
  using assms(2-)
proof (induction ds arbitrary: b pre j)
  case Nil
  then show ?case by auto
next
  case (Cons d ds)
  from Cons.prems(4) obtain b1 where s: "build_cmd f d b = Inr b1"
    and r: "run_stream f ds b1 = Inr b'"
    by (auto split: sum.splits)
  from stack_over_step [OF assms(1) Cons.prems(1,2,3) s] obtain pre1 j1
    where "anim_intermediate_stack b1 = pre1 @ drop j1 st"
      and "list_all (\<lambda>x. n \<le> animation x) pre1" and "n \<le> next_anim b1"
    by blast
  from Cons.IH [OF this r] show ?case .
qed

lemma same_frame_same_stack:
  assumes dist: "distinct (map animation st)" and ne: "st \<noteq> []"
    and old: "list_all (\<lambda>e. animation e < n) st"
    and over: "s = pre @ drop j st" and fresh: "list_all (\<lambda>x. n \<le> animation x) pre"
    and top: "s \<noteq> []" "animation (hd s) = animation (hd st)"
  shows "s = st"
proof -
  have "animation (hd st) < n" using old ne by (cases st) simp_all
  have pre: "pre = []"
  proof (cases pre)
    case Nil
    then show ?thesis .
  next
    case (Cons x xs)
    with over have "hd s = x" by simp
    with Cons fresh top(2) \<open>animation (hd st) < n\<close> show ?thesis by simp
  qed
  with over top(1) have j: "j < length st" and s: "s = drop j st" by simp_all
  then have "hd s = st ! j" by (simp add: hd_drop_conv_nth)
  with top(2) ne have eq: "map animation st ! j = map animation st ! 0"
    using j by (simp add: hd_conv_nth)
  have "(map animation st ! j = map animation st ! 0) = (j = 0)"
    using dist j ne by (intro nth_eq_iff_index_eq) simp_all
  with eq have "j = 0" by blast
  with s show ?thesis by simp
qed

lemma blocks_grow_step:
  "build_cmd f d b = Inr b' \<Longrightarrow> \<exists>ms. blocks b' = blocks b @ ms"
  by (cases d)
    (auto simp: Let_def update_anim_def update_dataref_def
      set_current_intermediate_datablock_def
      dest!: make_empty_as_needed_cases
      split: sum.splits list.splits option.splits if_splits prod.splits)

lemma blocks_grow_run:
  "run_stream f ds b = Inr b' \<Longrightarrow> \<exists>ms. blocks b' = blocks b @ ms"
proof (induction ds arbitrary: b)
  case Nil
  then show ?case by simp
next
  case (Cons d ds)
  from Cons.prems obtain b1 where s: "build_cmd f d b = Inr b1"
    and r: "run_stream f ds b1 = Inr b'"
    by (auto split: sum.splits)
  from blocks_grow_step [OF s] Cons.IH [OF r] show ?case by auto
qed

lemma root_run:
  "run_stream f ds b = Inr b' \<Longrightarrow>
   root_intermediate_datablock b' = root_intermediate_datablock b"
proof (induction ds arbitrary: b)
  case Nil
  then show ?case by simp
next
  case (Cons d ds)
  then show ?case
    by (auto split: sum.splits dest: root_step)
qed

lemma frame_on_top_again:
  assumes fresh: "addrs_fresh b1" and refs: "refs_in_range b1"
    and st: "anim_intermediate_stack b1 = e1 # es"
    and bound: "list_all (\<lambda>x. inter_datablock x \<noteq> None) (e1 # es)"
    and pn: "tris_parent_name b1 = Inr pn"
    and run: "run_stream f ds2 b1 = Inr b2"
    and top: "frame_on_top (animation e1) b2"
  shows "anim_intermediate_stack b2 = anim_intermediate_stack b1
       \<and> (\<forall>start cnt hint. \<exists>m. build_cmd f (TRIS start cnt hint) b2
                                    = Inr (b2\<lparr>blocks := blocks b2 @ [m]\<rparr>)
                                  \<and> sibling_of pn m)"
proof -
  let ?n = "next_anim b1"
  from fresh st have old: "list_all (\<lambda>x. animation x < ?n) (e1 # es)"
    and dist: "distinct (map animation (e1 # es))"
    by (simp_all add: addrs_fresh_def)
  have "anim_intermediate_stack b1 = [] @ drop 0 (e1 # es)" using st by simp
  from stack_over_run [OF bound this _ _ run, of ?n] obtain pre j
    where over: "anim_intermediate_stack b2 = pre @ drop j (e1 # es)"
      and new: "list_all (\<lambda>x. ?n \<le> animation x) pre"
    by auto
  from top have ne: "anim_intermediate_stack b2 \<noteq> []"
    and hd: "animation (hd (anim_intermediate_stack b2)) = animation (hd (e1 # es))"
    by (auto simp: frame_on_top_def split: list.splits)
  have same: "anim_intermediate_stack b2 = e1 # es"
    using same_frame_same_stack [OF dist _ old over new ne hd] by simp
  from blocks_grow_run [OF run] obtain ms where ms: "blocks b2 = blocks b1 @ ms" by blast
  have pn2: "tris_parent_name b2 = Inr pn"
    using tris_parent_name_extend [OF refs, of b2 ms] same st ms root_run [OF run] pn by simp
  from bound have b1': "inter_datablock e1 \<noteq> None" by simp
  have tris: "\<exists>m. build_cmd f (TRIS start cnt hint) b2 = Inr (b2\<lparr>blocks := blocks b2 @ [m]\<rparr>)
          \<and> sibling_of pn m" for start cnt hint
    using tris_bound_step [OF same b1' pn2, of f start cnt hint]
    unfolding sibling_of_def by blast
  have eq: "anim_intermediate_stack b2 = anim_intermediate_stack b1"
    using same st by simp
  show ?thesis
  proof (intro conjI allI)
    show "anim_intermediate_stack b2 = anim_intermediate_stack b1" by (rule eq)
  next
    fix start cnt hint
    show "\<exists>m. build_cmd f (TRIS start cnt hint) b2 = Inr (b2\<lparr>blocks := blocks b2 @ [m]\<rparr>)
            \<and> sibling_of pn m"
      by (rule tris)
  qed
qed

text \<open>
  C4, as stated, fails: in one block with two translation animations, the triangle
  directive after the first animation makes the mesh \<open>m1\<close> with the parent \<open>ROOT\<close>, and
  the triangle directive after the second, in the same block (open count 2), makes
  \<open>m2\<close> with the parent \<open>m1\<close> and the second animation: not a sibling of the first.
\<close>

theorem second_animation_counterexample:
  "map_sum id
     (\<lambda>b. (anim_count b,
           map (\<lambda>k. (name (datablock_info k), parent_info (datablock_info k),
                      animations_to_apply k)) (tl (blocks b))))
     (run_stream Map.empty second_animation_stream (init ''obj''))
   = Inr ([2],
          [(''m1'', Some \<lparr>parent = ''ROOT''\<rparr>, [0]), (''m2'', Some \<lparr>parent = ''m1''\<rparr>, [1])])"
  by (simp add: second_animation_stream_def eval_defs)

text \<open>
  C4, amended. In every state a new builder reaches in which the top frame is open and
  has no bound node, a triangle directive is processed without error: it appends one
  mesh node, which carries the frame's animation, and binds the frame to it, once. After
  that, whenever that frame is the top of the stack, at once, after directives that
  open or close nothing, or after blocks and animations opened since have been closed,
  the stack is the one the first triangle directive left, so the frame is still bound
  to the first node; and a triangle directive arriving then is processed without error,
  leaves the stack as it is and appends one mesh node with the same parent as the first
  and with no animation.
\<close>

theorem tris_binds_once:
  assumes reach: "run_stream f ds (init coll) = Inr b"
    and top: "anim_intermediate_stack b = e # es"
    and unbound: "inter_datablock e = None"
  shows "\<exists>b1 m1 pn. build_cmd f (TRIS start cnt hint) b = Inr b1
           \<and> blocks b1 = blocks b @ [m1]
           \<and> datablock_type (datablock_info m1) = ''MESH''
           \<and> parent_info (datablock_info m1) = Some \<lparr>parent = pn\<rparr>
           \<and> animations_to_apply m1 = [animation e]
           \<and> anim_intermediate_stack b1 = e\<lparr>inter_datablock := Some (length (blocks b))\<rparr> # es
           \<and> (\<forall>ds2. list_all is_tris ds2 \<longrightarrow> (\<exists>b2. run_stream f ds2 b1 = Inr b2))
           \<and> (\<forall>ds2 b2. list_all same_level ds2 \<and> run_stream f ds2 b1 = Inr b2 \<longrightarrow>
                  anim_intermediate_stack b2 = anim_intermediate_stack b1
                  \<and> (\<exists>ms. blocks b2 = blocks b1 @ ms
                        \<and> length ms = length (filter is_tris ds2)
                        \<and> list_all (sibling_of pn) ms))
           \<and> (\<forall>ds2 b2. run_stream f ds2 b1 = Inr b2 \<and> frame_on_top (animation e) b2 \<longrightarrow>
                  anim_intermediate_stack b2 = anim_intermediate_stack b1
                  \<and> (\<forall>start2 cnt2 hint2.
                        \<exists>m2. build_cmd f (TRIS start2 cnt2 hint2) b2
                                = Inr (b2\<lparr>blocks := blocks b2 @ [m2]\<rparr>)
                              \<and> sibling_of pn m2))"
proof -
  have inv: "reachable_inv coll b"
    using reachable_inv_run [OF reachable_inv_init reach] .
  then have refs: "refs_in_range b" and below: "below_top_bound b"
    by (simp_all add: reachable_inv_def)
  have fresh: "addrs_fresh b"
    using addrs_fresh_run [OF addrs_fresh_init reach] .
  from tris_parent_name_total [OF below] obtain pn where pn: "tris_parent_name b = Inr pn"
    by blast
  let ?e1 = "e\<lparr>inter_datablock := Some (length (blocks b))\<rparr>"
  from tris_unbound_step [OF top unbound pn, of f start cnt hint] obtain m1
    where step: "build_cmd f (TRIS start cnt hint) b =
                   Inr (b\<lparr>blocks := blocks b @ [m1], anim_intermediate_stack := ?e1 # es\<rparr>)"
      and m1: "datablock_type (datablock_info m1) = ''MESH''"
        "parent_info (datablock_info m1) = Some \<lparr>parent = pn\<rparr>"
        "animations_to_apply m1 = [animation e]"
    by blast
  let ?b1 = "b\<lparr>blocks := blocks b @ [m1], anim_intermediate_stack := ?e1 # es\<rparr>"
  have st1: "anim_intermediate_stack ?b1 = ?e1 # es" by simp
  have bound1: "inter_datablock ?e1 \<noteq> None" by simp
  have refs1: "refs_in_range ?b1" using refs_step [OF refs step] .
  have fresh1: "addrs_fresh ?b1" using addrs_fresh_step [OF fresh step] .
  have all_bound: "list_all (\<lambda>x. inter_datablock x \<noteq> None) (?e1 # es)"
    using below top by (simp add: below_top_bound_def)
  have pn1: "tris_parent_name ?b1 = Inr pn"
    using tris_parent_name_extend [OF refs, of ?b1 "[m1]"] top pn by simp
  have bl1: "blocks ?b1 = blocks b @ [m1]" by simp
  have total: "\<forall>ds2. list_all is_tris ds2 \<longrightarrow> (\<exists>b2. run_stream f ds2 ?b1 = Inr b2)"
    using tris_run_total [OF _ st1 bound1 pn1 refs1] by blast
  have siblings:
    "\<forall>ds2 b2. list_all same_level ds2 \<and> run_stream f ds2 ?b1 = Inr b2 \<longrightarrow>
        anim_intermediate_stack b2 = anim_intermediate_stack ?b1
        \<and> (\<exists>ms. blocks b2 = blocks ?b1 @ ms \<and> length ms = length (filter is_tris ds2)
              \<and> list_all (sibling_of pn) ms)"
    using same_level_run [OF _ _ st1 bound1 pn1 refs1] by blast
  have again:
    "\<forall>ds2 b2. run_stream f ds2 ?b1 = Inr b2 \<and> frame_on_top (animation e) b2 \<longrightarrow>
        anim_intermediate_stack b2 = anim_intermediate_stack ?b1
        \<and> (\<forall>start2 cnt2 hint2.
              \<exists>m2. build_cmd f (TRIS start2 cnt2 hint2) b2 = Inr (b2\<lparr>blocks := blocks b2 @ [m2]\<rparr>)
                    \<and> sibling_of pn m2)"
  proof (intro allI impI, elim conjE)
    fix ds2 b2
    assume r: "run_stream f ds2 ?b1 = Inr b2" and t: "frame_on_top (animation e) b2"
    from t have t': "frame_on_top (animation ?e1) b2" by simp
    from frame_on_top_again [OF fresh1 refs1 st1 all_bound pn1 r t']
    show "anim_intermediate_stack b2 = anim_intermediate_stack ?b1
        \<and> (\<forall>start2 cnt2 hint2.
              \<exists>m2. build_cmd f (TRIS start2 cnt2 hint2) b2 = Inr (b2\<lparr>blocks := blocks b2 @ [m2]\<rparr>)
                    \<and> sibling_of pn m2)" .
  qed
  show ?thesis
    apply (rule exI [where x = ?b1])
    apply (rule exI [where x = m1])
    apply (rule exI [where x = pn])
    apply (intro conjI)
            apply (rule step)
           apply (rule bl1)
          apply (rule m1(1))
         apply (rule m1(2))
        apply (rule m1(3))
       apply (rule st1)
      apply (rule total)
     apply (rule siblings)
    apply (rule again)
    done
qed

theorem tris_binds_once_witness:
  "\<exists>b e es b1 m1 b2 ms pn b3 m3.
     run_stream Map.empty open_frame_stream (init ''obj'') = Inr b
     \<and> anim_intermediate_stack b = e # es \<and> inter_datablock e = None
     \<and> build_cmd Map.empty (TRIS 0 3 ''first'') b = Inr b1
     \<and> blocks b1 = blocks b @ [m1]
     \<and> parent_info (datablock_info m1) = Some \<lparr>parent = pn\<rparr>
     \<and> anim_intermediate_stack b1 = e\<lparr>inter_datablock := Some (length (blocks b))\<rparr> # es
     \<and> run_stream Map.empty more_tris_stream b1 = Inr b2
     \<and> anim_intermediate_stack b2 = anim_intermediate_stack b1
     \<and> blocks b2 = blocks b1 @ ms \<and> length ms = 2 \<and> list_all (sibling_of pn) ms
     \<and> run_stream Map.empty closed_block_stream b1 = Inr b3
     \<and> frame_on_top (animation e) b3
     \<and> anim_intermediate_stack b3 = anim_intermediate_stack b1
     \<and> build_cmd Map.empty (TRIS 6 3 ''later'') b3 = Inr (b3\<lparr>blocks := blocks b3 @ [m3]\<rparr>)
     \<and> sibling_of pn m3"
proof -
  obtain b where r: "run_stream Map.empty open_frame_stream (init ''obj'') = Inr b"
    and st: "anim_intermediate_stack b = [\<lparr>animation = 0, inter_datablock = None\<rparr>]"
    and cnt: "anim_count b = [1]" and nx: "next_anim b = 1" and bl: "length (blocks b) = 1"
    by (simp add: open_frame_stream_def eval_defs)
  have unb: "inter_datablock \<lparr>animation = 0, inter_datablock = None\<rparr> = None" by simp
  have t: "list_all is_tris more_tris_stream" and l: "list_all same_level more_tris_stream"
    and n: "length (filter is_tris more_tris_stream) = 2"
    by (simp_all add: more_tris_stream_def)
  from tris_binds_once [OF r st unb, of 0 3 "''first''"] obtain b1 m1 pn
    where a: "build_cmd Map.empty (TRIS 0 3 ''first'') b = Inr b1"
      "blocks b1 = blocks b @ [m1]"
      "parent_info (datablock_info m1) = Some \<lparr>parent = pn\<rparr>"
      "anim_intermediate_stack b1 =
         \<lparr>animation = 0, inter_datablock = None\<rparr>\<lparr>inter_datablock := Some (length (blocks b))\<rparr> # []"
      and tot: "\<forall>ds2. list_all is_tris ds2 \<longrightarrow> (\<exists>b2. run_stream Map.empty ds2 b1 = Inr b2)"
      and sib: "\<forall>ds2 b2. list_all same_level ds2 \<and> run_stream Map.empty ds2 b1 = Inr b2 \<longrightarrow>
                  anim_intermediate_stack b2 = anim_intermediate_stack b1
                  \<and> (\<exists>ms. blocks b2 = blocks b1 @ ms
                        \<and> length ms = length (filter is_tris ds2)
                        \<and> list_all (sibling_of pn) ms)"
      and again: "\<forall>ds2 b2. run_stream Map.empty ds2 b1 = Inr b2
                    \<and> frame_on_top (animation \<lparr>animation = 0, inter_datablock = None\<rparr>) b2 \<longrightarrow>
                  anim_intermediate_stack b2 = anim_intermediate_stack b1
                  \<and> (\<forall>start2 cnt2 hint2.
                        \<exists>m2. build_cmd Map.empty (TRIS start2 cnt2 hint2) b2
                                = Inr (b2\<lparr>blocks := blocks b2 @ [m2]\<rparr>)
                              \<and> sibling_of pn m2)"
    by blast
  from tot t obtain b2 where r2: "run_stream Map.empty more_tris_stream b1 = Inr b2" by blast
  from sib l r2 n obtain ms where s2:
    "anim_intermediate_stack b2 = anim_intermediate_stack b1" "blocks b2 = blocks b1 @ ms"
    "length ms = 2" "list_all (sibling_of pn) ms"
    by force
  from a(1) st cnt nx bl have c1: "anim_count b1 = [1]" and n1: "next_anim b1 = 1"
    and root1: "root_intermediate_datablock b1 = root_intermediate_datablock b"
    by (auto simp: tris_parent_name_def set_current_intermediate_datablock_def
        current_animation_def Let_def)
  obtain b3 where r3: "run_stream Map.empty closed_block_stream b1 = Inr b3"
    and s3: "anim_intermediate_stack b3 = anim_intermediate_stack b1"
    using a(4) c1 n1 bl
    by (simp add: closed_block_stream_def make_empty_as_needed_def update_anim_def
        tris_parent_name_def set_current_intermediate_datablock_def current_animation_def)
  have f3: "frame_on_top (animation \<lparr>animation = 0, inter_datablock = None\<rparr>) b3"
    using s3 a(4) by (simp add: frame_on_top_def)
  from again r3 f3 obtain m3
    where "build_cmd Map.empty (TRIS 6 3 ''later'') b3 = Inr (b3\<lparr>blocks := blocks b3 @ [m3]\<rparr>)"
      and "sibling_of pn m3"
    by blast
  with r st unb a r2 s2 r3 f3 s3 show ?thesis by blast
qed

end
